theory Spec2Isabelle
  imports Complex_Main "HOL-Library.Sublist"
begin

section \<open>Registry records\<close>

text \<open>
  The registry payloads are untyped JSON in the source. Each record below lists the fields
  the graph code reads; an absent, \<open>null\<close> or \<open>undefined\<close> field is \<open>None\<close>.
  Strings are lists of characters.
\<close>

record address =
  address_line_1 :: "string option"
  address_line_2 :: "string option"
  locality :: "string option"
  region :: "string option"
  postal_code :: "string option"
  country :: "string option"

record company =
  company_number :: string
  company_name :: "string option"
  type :: "string option"
  date_of_creation :: "string option"
  company_status :: "string option"
  registered_office_address :: "address option"

record officer =
  officer_id :: "string option"
  name :: "string option"
  officer_role :: "string option"
  nationality :: "string option"
  appointed_on :: "string option"
  occupation :: "string option"
  country_of_residence :: "string option"
  address :: "address option"

record psc =
  name :: "string option"
  natures_of_control :: "string list option"
  nationality :: "string option"

record appointed_company =
  company_number :: string
  company_name :: "string option"

record appointment =
  appointed_to :: appointed_company
  officer_role :: "string option"
  appointed_on :: "string option"
  address :: "address option"
  company_status :: "string option"

section \<open>Nodes and edges\<close>

datatype source_record =
    Company company
  | Officer officer
  | Psc psc
  | OfficerAddress "address option"
  | AppointedTo appointed_company

record node_data =
  label :: "string option"
  role :: "string option"
  type :: string
  subtext :: "string option"
  status :: "string option"
  address :: "string option"
  officer_id :: "string option"
  appointed_on :: "string option"
  nationality :: "string option"
  occupation :: "string option"
  country_of_residence :: "string option"
  source :: source_record
  customColor :: "string option"
  node_notes :: "string option"

text \<open>
  A style object; an absent \<open>style\<close> is the record with every field \<open>None\<close>, which is
  what spreading \<open>undefined\<close> gives. Opacities are the literals \<open>1\<close>, \<open>0.2\<close> and
  \<open>0.1\<close>.
\<close>

record style =
  stroke :: "string option"
  strokeDasharray :: "string option"
  opacity :: "rat option"
  transition :: "string option"

definition no_style :: style where
  "no_style = \<lparr> stroke = None, strokeDasharray = None, opacity = None, transition = None \<rparr>"

text \<open>
  The constant fields \<open>type: 'businessCard'\<close> of a node and \<open>type: 'smoothstep'\<close>,
  \<open>animated: true\<close> of an edge are the same on every object the code builds and are
  left out.
\<close>

record node =
  node_id :: string
  data :: node_data
  position :: "rat \<times> rat"
  style :: style

record edge =
  edge_id :: string
  source :: string
  target :: string
  label :: "string option"
  style :: style
  labelBgStyle :: string
  labelStyle :: "string \<times> nat"

section \<open>Helpers\<close>

text \<open>\<open>Array.prototype.join\<close>.\<close>

fun join :: "string \<Rightarrow> string list \<Rightarrow> string" where
  "join sep [] = []"
| "join sep [x] = x"
| "join sep (x # y # ys) = x @ sep @ join sep (y # ys)"

text \<open>\<open>.filter(Boolean)\<close> on string fields: absent and empty strings are falsy.\<close>

fun filterBoolean :: "string option list \<Rightarrow> string list" where
  "filterBoolean [] = []"
| "filterBoolean (None # xs) = filterBoolean xs"
| "filterBoolean (Some s # xs) = (if s = [] then filterBoolean xs else s # filterBoolean xs)"

definition formatAddress :: "address option \<Rightarrow> string option" where
  "formatAddress addr =
     (case addr of
        None \<Rightarrow> None
      | Some a \<Rightarrow>
          Some (join '', ''
            (filterBoolean
              [address_line_1 a, address_line_2 a, locality a, region a,
               postal_code a, country a])))"

text \<open>
  The two-component label \<open>[line 1, locality].filter(Boolean).join(', ')\<close> the source
  writes inline for the registered-office node and in officer expansion.
\<close>

definition shortAddress :: "address \<Rightarrow> string" where
  "shortAddress a = join '', '' (filterBoolean [address_line_1 a, locality a])"

section \<open>Connectivity highlighter\<close>

type_synonym adjacency = "string \<rightharpoonup> (string \<times> string) list"

definition adjacency_get :: "adjacency \<Rightarrow> string \<Rightarrow> (string \<times> string) list" where
  "adjacency_get adj k = (case adj k of None \<Rightarrow> [] | Some l \<Rightarrow> l)"

text \<open>One round of \<open>edges.forEach\<close> building the undirected adjacency map.\<close>

definition adjacency_add :: "edge \<Rightarrow> adjacency \<Rightarrow> adjacency" where
  "adjacency_add e adj =
     (let a1 = (if adj (source e) = None then adj(source e \<mapsto> []) else adj);
          a2 = (if a1 (target e) = None then a1(target e \<mapsto> []) else a1);
          a3 = a2(source e \<mapsto> adjacency_get a2 (source e) @ [(target e, edge_id e)]);
          a4 = a3(target e \<mapsto> adjacency_get a3 (target e) @ [(source e, edge_id e)])
      in a4)"

definition build_adjacency :: "edge list \<Rightarrow> adjacency" where
  "build_adjacency edges = fold adjacency_add edges Map.empty"

text \<open>The loop state: the queue, \<open>connectedNodeIds\<close> and \<open>connectedEdgeIds\<close>.\<close>

type_synonym bfs_state = "string list \<times> string set \<times> string set"

text \<open>The body of the \<open>for\<close> loop over the neighbours of the current node.\<close>

fun visit :: "string \<times> string \<Rightarrow> bfs_state \<Rightarrow> bfs_state" where
  "visit (nodeId, edgeId) (queue, connectedNodeIds, connectedEdgeIds) =
     (if nodeId \<notin> connectedNodeIds
      then (queue @ [nodeId], insert nodeId connectedNodeIds, insert edgeId connectedEdgeIds)
      else (queue, connectedNodeIds, insert edgeId connectedEdgeIds))"

text \<open>\<open>currNode?.data?.type === 'company'\<close> for \<open>currNode = nodes.find(n => n.id === currId)\<close>.\<close>

definition is_company :: "node list \<Rightarrow> string \<Rightarrow> bool" where
  "is_company nodes currId =
     (case find (\<lambda>n. node_id n = currId) nodes of
        None \<Rightarrow> False
      | Some currNode \<Rightarrow> node_data.type (data currNode) = ''company'')"

definition endpoints :: "edge list \<Rightarrow> string set" where
  "endpoints edges = source ` set edges \<union> target ` set edges"

lemma adjacency_get_upd:
  "adjacency_get (adj(k \<mapsto> l)) k' = (if k' = k then l else adjacency_get adj k')"
  by (simp add: adjacency_get_def)

lemma adjacency_get_add:
  "adjacency_get (adjacency_add e adj) v =
     adjacency_get adj v
       @ (if source e = v then [(target e, edge_id e)] else [])
       @ (if target e = v then [(source e, edge_id e)] else [])"
  by (auto simp: adjacency_add_def Let_def adjacency_get_def)

lemma adjacency_get_fold:
  "adjacency_get (fold adjacency_add es adj) v =
     adjacency_get adj v
       @ concat (map (\<lambda>e. (if source e = v then [(target e, edge_id e)] else [])
                          @ (if target e = v then [(source e, edge_id e)] else [])) es)"
  by (induction es arbitrary: adj) (simp_all add: adjacency_get_add)

lemma adjacency_get_build:
  "adjacency_get (build_adjacency es) v =
     concat (map (\<lambda>e. (if source e = v then [(target e, edge_id e)] else [])
                      @ (if target e = v then [(source e, edge_id e)] else [])) es)"
  by (simp add: build_adjacency_def adjacency_get_fold) (simp add: adjacency_get_def)

lemma neighbours_in_endpoints:
  "(n, i) \<in> set (adjacency_get (build_adjacency es) v) \<Longrightarrow> n \<in> endpoints es"
  by (auto simp: adjacency_get_build endpoints_def split: if_splits)

lemma fold_visit_measure:
  assumes "finite U" and "fst ` set ns \<subseteq> U"
    and "fold visit ns (q, cn, ce) = (q', cn', ce')"
  shows "card (U - cn') + length q' = card (U - cn) + length q"
  using assms
proof (induction ns arbitrary: q cn ce)
  case Nil
  then show ?case by simp
next
  case (Cons a ns)
  obtain n i where a: "a = (n, i)" by (cases a)
  show ?case
  proof (cases "n \<in> cn")
    case True
    with Cons a show ?thesis by simp
  next
    case False
    from Cons.prems a have nU: "n \<in> U" by simp
    from Cons.prems a False
    have "fold visit ns (q @ [n], insert n cn, insert i ce) = (q', cn', ce')" by simp
    with Cons.IH Cons.prems
    have "card (U - cn') + length q' = card (U - insert n cn) + length (q @ [n])" by simp
    moreover have "card (U - insert n cn) + 1 = card (U - cn)"
    proof -
      have "U - cn = insert n (U - insert n cn)" using nU False by auto
      moreover have "n \<notin> U - insert n cn" by simp
      moreover have "finite (U - insert n cn)" using Cons.prems by simp
      ultimately show ?thesis by (metis card_insert_disjoint Suc_eq_plus1)
    qed
    ultimately show ?thesis by simp
  qed
qed

text \<open>
  The \<open>while (queue.length > 0)\<close> loop. A company that is not the active node is popped
  without looking at its neighbours (\<open>continue\<close>).
\<close>

function bfs :: "node list \<Rightarrow> edge list \<Rightarrow> string \<Rightarrow> bfs_state \<Rightarrow> string set \<times> string set" where
  "bfs nodes edges activeNodeId ([], connectedNodeIds, connectedEdgeIds) =
     (connectedNodeIds, connectedEdgeIds)"
| "bfs nodes edges activeNodeId (currId # queue, connectedNodeIds, connectedEdgeIds) =
     (if is_company nodes currId \<and> currId \<noteq> activeNodeId
      then bfs nodes edges activeNodeId (queue, connectedNodeIds, connectedEdgeIds)
      else bfs nodes edges activeNodeId
             (fold visit (adjacency_get (build_adjacency edges) currId)
                (queue, connectedNodeIds, connectedEdgeIds)))"
  by pat_completeness auto
termination
proof (relation "measure (\<lambda>(nodes, edges, a, (q, cn, ce)). card (endpoints edges - cn) + length q)")
  show "wf (measure (\<lambda>(nodes, edges, a, (q, cn, ce)). card (endpoints edges - cn) + length q))"
    by simp
next
  fix nodes :: "node list" and edges :: "edge list" and activeNodeId currId :: string
    and queue :: "string list" and connectedNodeIds connectedEdgeIds :: "string set"
  show "((nodes, edges, activeNodeId, queue, connectedNodeIds, connectedEdgeIds),
         (nodes, edges, activeNodeId, currId # queue, connectedNodeIds, connectedEdgeIds))
        \<in> measure (\<lambda>(nodes, edges, a, (q, cn, ce)). card (endpoints edges - cn) + length q)"
    by simp
next
  fix nodes :: "node list" and edges :: "edge list" and activeNodeId currId :: string
    and queue :: "string list" and connectedNodeIds connectedEdgeIds :: "string set"
  obtain q' cn' ce' where f:
    "fold visit (adjacency_get (build_adjacency edges) currId)
       (queue, connectedNodeIds, connectedEdgeIds) = (q', cn', ce')"
    by (metis prod_cases3)
  have "finite (endpoints edges)" by (simp add: endpoints_def)
  moreover have "fst ` set (adjacency_get (build_adjacency edges) currId) \<subseteq> endpoints edges"
    using neighbours_in_endpoints by fastforce
  ultimately have "card (endpoints edges - cn') + length q'
      = card (endpoints edges - connectedNodeIds) + length queue"
    using f by (rule fold_visit_measure)
  then show "((nodes, edges, activeNodeId,
          fold visit (adjacency_get (build_adjacency edges) currId)
            (queue, connectedNodeIds, connectedEdgeIds)),
         (nodes, edges, activeNodeId, currId # queue, connectedNodeIds, connectedEdgeIds))
        \<in> measure (\<lambda>(nodes, edges, a, (q, cn, ce)). card (endpoints edges - cn) + length q)"
    by (simp add: f)
qed

text \<open>
  The pass over all edges after the traversal: an edge whose two ends are both connected
  is connected.
\<close>

definition recover_edges :: "edge list \<Rightarrow> string set \<Rightarrow> string set \<Rightarrow> string set" where
  "recover_edges edges connectedNodeIds connectedEdgeIds =
     fold (\<lambda>edge ce.
             if source edge \<in> connectedNodeIds \<and> target edge \<in> connectedNodeIds
             then insert (edge_id edge) ce else ce)
       edges connectedEdgeIds"

definition style_node :: "string set \<Rightarrow> node \<Rightarrow> node" where
  "style_node connectedNodeIds node =
     node\<lparr> node.style := (node.style node)
       \<lparr> opacity := Some (if node_id node \<in> connectedNodeIds then 1 else 2 / 10),
         transition := Some ''opacity 0.2s ease-in-out'' \<rparr> \<rparr>"

definition style_edge :: "string set \<Rightarrow> edge \<Rightarrow> edge" where
  "style_edge connectedEdgeIds edge =
     edge\<lparr> edge.style := (edge.style edge)
       \<lparr> opacity := Some (if edge_id edge \<in> connectedEdgeIds then 1 else 1 / 10),
         stroke := Some (if edge_id edge \<in> connectedEdgeIds then ''#94a3b8'' else ''#cbd5e1''),
         transition := Some ''opacity 0.2s ease-in-out'' \<rparr> \<rparr>"

text \<open>\<open>hoveredNodeId || selectedNode?.id\<close>: an empty hovered id is falsy.\<close>

definition activeNodeId_of :: "string option \<Rightarrow> node option \<Rightarrow> string option" where
  "activeNodeId_of hoveredNodeId selectedNode =
     (case hoveredNodeId of
        Some h \<Rightarrow> if h \<noteq> [] then Some h else map_option node_id selectedNode
      | None \<Rightarrow> map_option node_id selectedNode)"

definition connected_ids :: "node list \<Rightarrow> edge list \<Rightarrow> string \<Rightarrow> string set \<times> string set" where
  "connected_ids nodes edges activeNodeId =
     (let (connectedNodeIds, connectedEdgeIds) =
            bfs nodes edges activeNodeId ([activeNodeId], {activeNodeId}, {})
      in (connectedNodeIds, recover_edges edges connectedNodeIds connectedEdgeIds))"

text \<open>The \<open>useMemo\<close> that derives \<open>styledNodes\<close> and \<open>styledEdges\<close>.\<close>

definition styled :: "node list \<Rightarrow> edge list \<Rightarrow> string option \<Rightarrow> node option
    \<Rightarrow> node list \<times> edge list" where
  "styled nodes edges hoveredNodeId selectedNode =
     (case activeNodeId_of hoveredNodeId selectedNode of
        None \<Rightarrow> (nodes, edges)
      | Some activeNodeId \<Rightarrow>
          if activeNodeId = [] then (nodes, edges)
          else
            (let (connectedNodeIds, connectedEdgeIds) = connected_ids nodes edges activeNodeId
             in (map (style_node connectedNodeIds) nodes,
                 map (style_edge connectedEdgeIds) edges)))"

section \<open>External collaborators\<close>

text \<open>
  The date rendering of \<open>formatDate\<close> (\<open>new Date(s).toLocaleDateString('en-GB', ...)\<close>)
  and the layered layout of \<open>dagre\<close> are library code: they are parameters. \<open>dagre\<close>
  gets the rank direction, the node ids and the edges with their minimum rank span, and
  gives the centre of each node.
\<close>

record externals =
  toLocaleDateString :: "string \<Rightarrow> string"
  dagre :: "string \<Rightarrow> string list \<Rightarrow> (string \<times> string \<times> nat) list \<Rightarrow> string \<Rightarrow> rat \<times> rat"

definition formatDate :: "externals \<Rightarrow> string option \<Rightarrow> string" where
  "formatDate X dateStr =
     (case dateStr of
        None \<Rightarrow> ''N/A''
      | Some s \<Rightarrow> if s = [] then ''N/A'' else toLocaleDateString X s)"

text \<open>
  \<open>getLayoutedElements\<close>: correspondence edges get the minimum span 1, all others 3
  (no edge of this program carries \<open>data\<close>, so \<open>edge.data?.type === 'address'\<close> is
  never true); the nodes come back in order with the position moved from the centre to
  the top left corner of the 240 by 80 card, the edges as they are.
\<close>

definition getLayoutedElements :: "externals \<Rightarrow> node list \<Rightarrow> edge list \<Rightarrow> string
    \<Rightarrow> node list \<times> edge list" where
  "getLayoutedElements X nodes edges direction =
     (let nodeWithPosition =
            dagre X direction (map node_id nodes)
              (map (\<lambda>edge. (source edge, target edge,
                             if label edge = Some ''Correspondence'' then 1 else 3)) edges)
      in (map (\<lambda>node. node\<lparr> position :=
                 (fst (nodeWithPosition (node_id node)) - 240 / 2,
                  snd (nodeWithPosition (node_id node)) - 80 / 2) \<rparr>) nodes,
          edges))"

section \<open>Strings of the identity rules\<close>

text \<open>The decimal rendering of an index in a template literal.\<close>

definition digit_char :: "nat \<Rightarrow> char" where
  "digit_char d = ''0123456789'' ! d"

fun string_of_nat :: "nat \<Rightarrow> string" where
  "string_of_nat n =
     (if n < 10 then [digit_char n] else string_of_nat (n div 10) @ [digit_char (n mod 10)])"

declare string_of_nat.simps [simp del]

text \<open>\<open>a || b\<close> on optional strings: absent and empty are falsy.\<close>

definition truthy :: "string option \<Rightarrow> bool" where
  "truthy a = (case a of None \<Rightarrow> False | Some s \<Rightarrow> s \<noteq> [])"

definition orElse :: "string option \<Rightarrow> string option \<Rightarrow> string option" where
  "orElse a b = (if truthy a then a else b)"

text \<open>
  The address slug \<open>label.replace(/\s+/g, '-').toLowerCase().slice(0, 20)\<close>. Characters
  are code units below 256 (Latin-1); on that range \<open>\s\<close> is tab, line feed, vertical
  tab, form feed, carriage return, space and no-break space, and \<open>toLowerCase\<close> moves
  \<open>A\<close>--\<open>Z\<close> and the accented capitals by 32.
\<close>

definition is_space :: "char \<Rightarrow> bool" where
  "is_space c = (of_char c \<in> {9, 10, 11, 12, 13, 32, 160 :: nat})"

function replace_spaces :: "string \<Rightarrow> string" where
  "replace_spaces [] = []"
| "replace_spaces (c # cs) =
     (if is_space c then CHR ''-'' # replace_spaces (dropWhile is_space cs)
      else c # replace_spaces cs)"
  by pat_completeness auto
termination
  by (relation "measure length") (auto simp: le_imp_less_Suc length_dropWhile_le)

definition toLowerCase_char :: "char \<Rightarrow> char" where
  "toLowerCase_char c =
     (let n = of_char c :: nat
      in if (65 \<le> n \<and> n \<le> 90) \<or> (192 \<le> n \<and> n \<le> 222 \<and> n \<noteq> 215)
         then char_of (n + 32) else c)"

definition address_slug :: "string \<Rightarrow> string" where
  "address_slug addressLabel = take 20 (map toLowerCase_char (replace_spaces addressLabel))"

section \<open>Building nodes and edges\<close>

definition edgeId :: "string \<Rightarrow> string \<Rightarrow> string" where
  "edgeId a b = ''e-'' @ a @ ''-'' @ b"

text \<open>The edge literal with the grey stroke, used for every relation but PSC and correspondence.\<close>

definition relationEdge :: "string \<Rightarrow> string \<Rightarrow> string \<Rightarrow> string option \<Rightarrow> edge" where
  "relationEdge i s t l =
     \<lparr> edge_id = i, source = s, target = t, label = l,
       style = no_style\<lparr> stroke := Some ''#94a3b8'' \<rparr>,
       labelBgStyle = ''#f8fafc'', labelStyle = (''#64748b'', 500) \<rparr>"

definition pscEdge :: "string \<Rightarrow> string \<Rightarrow> edge" where
  "pscEdge s t =
     \<lparr> edge_id = edgeId s t, source = s, target = t, label = Some ''PSC'',
       style = no_style\<lparr> stroke := Some ''#f59e0b'' \<rparr>,
       labelBgStyle = ''#fffbeb'', labelStyle = (''#d97706'', 700) \<rparr>"

definition correspondenceEdge :: "string \<Rightarrow> string \<Rightarrow> edge" where
  "correspondenceEdge officerId addressNodeId =
     \<lparr> edge_id = edgeId officerId addressNodeId, source = officerId, target = addressNodeId,
       label = Some ''Correspondence'',
       style = no_style\<lparr> stroke := Some ''#94a3b8'', strokeDasharray := Some ''5,5'' \<rparr>,
       labelBgStyle = ''#f8fafc'', labelStyle = (''#64748b'', 500) \<rparr>"

definition no_data :: "string \<Rightarrow> source_record \<Rightarrow> node_data" where
  "no_data t src =
     \<lparr> node_data.label = None, role = None, type = t, subtext = None, status = None,
       address = None, officer_id = None, appointed_on = None, nationality = None,
       occupation = None, country_of_residence = None, node_data.source = src,
       customColor = None, node_notes = None \<rparr>"

definition new_node :: "string \<Rightarrow> node_data \<Rightarrow> node" where
  "new_node i d = \<lparr> node_id = i, data = d, position = (0, 0), node.style = no_style \<rparr>"

text \<open>The officer node literal (the same in the seed fetch and in company expansion).\<close>

definition officerNode :: "string \<Rightarrow> officer \<Rightarrow> node" where
  "officerNode i officer =
     new_node i ((no_data ''officer'' (Officer officer))
       \<lparr> node_data.label := officer.name officer,
         role := officer.officer_role officer,
         subtext := officer.nationality officer,
         officer_id := officer.officer_id officer,
         appointed_on := officer.appointed_on officer,
         nationality := officer.nationality officer,
         occupation := officer.occupation officer,
         country_of_residence := officer.country_of_residence officer,
         address := formatAddress (officer.address officer) \<rparr>)"

text \<open>The correspondence-address node literal.\<close>

definition officerAddressNode :: "string \<Rightarrow> string \<Rightarrow> officer \<Rightarrow> node" where
  "officerAddressNode i addressLabel officer =
     new_node i ((no_data ''address'' (OfficerAddress (officer.address officer)))
       \<lparr> node_data.label := Some addressLabel, role := Some ''Correspondence Address'' \<rparr>)"

section \<open>Seed fetch: assembling the initial graph\<close>

datatype failure = Failure string

text \<open>\<open>`${officer.officer_id || index}`\<close>\<close>

definition officerKey :: "officer \<Rightarrow> nat \<Rightarrow> string" where
  "officerKey officer index =
     (case officer.officer_id officer of
        None \<Rightarrow> string_of_nat index
      | Some i \<Rightarrow> if i \<noteq> [] then i else string_of_nat index)"

definition companyNode :: "externals \<Rightarrow> company \<Rightarrow> node" where
  "companyNode X company =
     new_node (company.company_number company)
       ((no_data ''company'' (Company company))
         \<lparr> node_data.label := company.company_name company,
           role := Some ''Target Company'',
           subtext := Some (''Inc: '' @ formatDate X (date_of_creation company)),
           status := company.company_status company,
           address := formatAddress (registered_office_address company) \<rparr>)"

text \<open>The officer pass: one node per computed id, the first occurrence wins.\<close>

fun officerStep :: "nat \<times> officer \<Rightarrow> string set \<times> node list \<Rightarrow> string set \<times> node list" where
  "officerStep (index, officer) (uniqueOfficerIds, officerNodes) =
     (let i = ''officer-'' @ officerKey officer index
      in if i \<notin> uniqueOfficerIds
         then (insert i uniqueOfficerIds, officerNodes @ [officerNode i officer])
         else (uniqueOfficerIds, officerNodes))"

text \<open>
  The address a seed officer is linked to, and the address nodes after looking at that
  officer: an address node of this batch with the same label, else \<open>address-1\<close> when the
  label is the company's formatted registered office, else a new node.
\<close>

definition resolveOfficerAddress :: "company \<Rightarrow> node list \<Rightarrow> nat \<Rightarrow> officer \<Rightarrow> string
    \<Rightarrow> string \<times> node list" where
  "resolveOfficerAddress company officerAddressNodes index officer addressLabel =
     (case find (\<lambda>n. node_data.label (data n) = Some addressLabel) officerAddressNodes of
        Some foundNode \<Rightarrow> (node_id foundNode, officerAddressNodes)
      | None \<Rightarrow>
          if Some addressLabel = formatAddress (registered_office_address company)
          then (''address-1'', officerAddressNodes)
          else
            (let addressNodeId =
                   ''address-'' @ string_of_nat index @ ''-'' @ officerKey officer index
             in (addressNodeId,
                 officerAddressNodes @ [officerAddressNode addressNodeId addressLabel officer])))"

fun officerAddressStep :: "company \<Rightarrow> nat \<times> officer \<Rightarrow> node list \<times> edge list
    \<Rightarrow> node list \<times> edge list" where
  "officerAddressStep company (index, officer) (officerAddressNodes, officerAddressEdges) =
     (case officer.address officer of
        None \<Rightarrow> (officerAddressNodes, officerAddressEdges)
      | Some addr \<Rightarrow>
          (case formatAddress (Some addr) of
             None \<Rightarrow> (officerAddressNodes, officerAddressEdges)
           | Some addressLabel \<Rightarrow>
               if addressLabel = [] then (officerAddressNodes, officerAddressEdges)
               else
                 (let officerId = ''officer-'' @ officerKey officer index;
                      (addressNodeId, officerAddressNodes') =
                        resolveOfficerAddress company officerAddressNodes index officer
                          addressLabel
                  in (officerAddressNodes',
                      officerAddressEdges @ [correspondenceEdge officerId addressNodeId]))))"

text \<open>\<open>psc.natures_of_control?.[0]?.split('-').join(' ') || 'Significant Control'\<close>\<close>

definition pscRole :: "psc \<Rightarrow> string" where
  "pscRole psc =
     (case natures_of_control psc of
        None \<Rightarrow> ''Significant Control''
      | Some [] \<Rightarrow> ''Significant Control''
      | Some (n # _) \<Rightarrow>
          if n = [] then ''Significant Control''
          else map (\<lambda>c. if c = CHR ''-'' then CHR '' '' else c) n)"

definition pscNode :: "string \<Rightarrow> psc \<Rightarrow> node" where
  "pscNode i psc =
     new_node i ((no_data ''psc'' (Psc psc))
       \<lparr> node_data.label := psc.name psc,
         role := Some (pscRole psc),
         subtext := psc.nationality psc \<rparr>)"

fun pscStep :: "nat \<times> psc \<Rightarrow> string set \<times> node list \<Rightarrow> string set \<times> node list" where
  "pscStep (index, psc) (uniquePscIds, pscNodes) =
     (let i = ''psc-'' @ string_of_nat index
      in if i \<notin> uniquePscIds
         then (insert i uniquePscIds, pscNodes @ [pscNode i psc])
         else (uniquePscIds, pscNodes))"

text \<open>The \<open>uniqueEdges\<close> map: the first edge of an id is kept, in insertion order.\<close>

definition uniqueEdgesStep :: "edge \<Rightarrow> (string \<times> edge) list \<Rightarrow> (string \<times> edge) list" where
  "uniqueEdgesStep edge uniqueEdges =
     (if edge_id edge \<notin> fst ` set uniqueEdges then uniqueEdges @ [(edge_id edge, edge)]
      else uniqueEdges)"

text \<open>
  The body of the \<open>try\<close> block from the destructuring of \<open>data\<close> to the two lists
  handed to the layout. Reading \<open>address_line_1\<close> of an absent registered office throws.
\<close>

definition assemble :: "externals \<Rightarrow> company \<Rightarrow> officer list \<Rightarrow> psc list option
    \<Rightarrow> failure + node list \<times> edge list" where
  "assemble X company officers pscs =
     (let companyNode = companyNode X company;
          officerNodes = snd (fold officerStep (enumerate 0 officers) ({}, []));
          (officerAddressNodes, officerAddressEdges) =
            fold (officerAddressStep company) (enumerate 0 officers) ([], []);
          pscNodes =
            snd (fold pscStep (enumerate 0 (case pscs of None \<Rightarrow> [] | Some l \<Rightarrow> l)) ({}, []))
      in case registered_office_address company of
           None \<Rightarrow>
             Inl (Failure ''Cannot read properties of undefined (reading 'address_line_1')'')
         | Some registered \<Rightarrow>
             (let addressNode =
                    new_node ''address-1''
                      ((no_data ''address'' (Company company))
                        \<lparr> node_data.label := Some (shortAddress registered),
                          role := Some ''Registered Address'' \<rparr>);
                  newNodes =
                    [companyNode] @ officerNodes @ pscNodes @ [addressNode] @ officerAddressNodes;
                  rawEdges =
                    map (\<lambda>node. relationEdge (edgeId (node_id companyNode) (node_id node))
                                  (node_id companyNode) (node_id node) (role (data node)))
                      officerNodes
                    @ map (\<lambda>node. pscEdge (node_id companyNode) (node_id node)) pscNodes
                    @ [relationEdge (edgeId (node_id companyNode) ''address-1'')
                         (node_id companyNode) (node_id addressNode) (Some ''Registered Office'')]
                    @ officerAddressEdges;
                  newEdges = map snd (fold uniqueEdgesStep rawEdges [])
              in Inr (newNodes, newEdges)))"

section \<open>Expansion\<close>

text \<open>
  What a \<open>fetch\<close> followed by \<open>res.json()\<close> gives: it throws (the request is rejected
  or the body is not JSON), or it returns the parsed body. The API routes of this
  repository answer a registry failure with a JSON body \<open>{error: ...}\<close>, which is a
  returned body without the expected list.
\<close>

datatype 'a fetched = Threw string | Returned 'a

record company_response =
  resp_company :: "company option"
  resp_officers :: "officer list option"

text \<open>
  The registry as one call of \<open>expandSingleNode\<close> sees it: the \<open>items\<close> of an officer's
  appointments, the body of \<open>/api/company/<id>\<close>, and the \<open>items\<close> of the location
  search for a label.
\<close>

record registry =
  getAppointments :: "string \<Rightarrow> appointment list option fetched"
  getCompany :: "string \<Rightarrow> company_response fetched"
  searchAddress :: "string option \<Rightarrow> company list option fetched"

type_synonym expansion = "node list \<times> edge list \<times> node list"

text \<open>
  An element of \<open>results\<close> in the officer branch: the appointed company is already a node
  of the graph, or its details were fetched (\<open>None\<close> when that fetch failed or had no
  \<open>company\<close>).
\<close>

datatype appointment_result =
    Existing appointment node
  | Fetched appointment "company option"

definition appointmentPromise :: "registry \<Rightarrow> node list \<Rightarrow> appointment \<Rightarrow> appointment_result" where
  "appointmentPromise reg currentNodes item =
     (let nodeId = appointed_company.company_number (appointed_to item)
      in case find (\<lambda>n. node_id n = nodeId) currentNodes of
           Some existingNode \<Rightarrow> Existing item existingNode
         | None \<Rightarrow>
             (case getCompany reg nodeId of
                Threw err \<Rightarrow> Fetched item None
              | Returned companyData \<Rightarrow> Fetched item (resp_company companyData)))"

definition has_id :: "string \<Rightarrow> 'a node_scheme list \<Rightarrow> bool" where
  "has_id i ns = (\<exists>n \<in> set ns. node_id n = i)"

definition has_edge_id :: "string \<Rightarrow> 'a edge_scheme list \<Rightarrow> bool" where
  "has_edge_id i es = (\<exists>e \<in> set es. edge_id e = i)"

definition is_address_labelled :: "string \<Rightarrow> node \<Rightarrow> bool" where
  "is_address_labelled addressLabel n =
     (node_data.type (data n) = ''address'' \<and> node_data.label (data n) = Some addressLabel)"

text \<open>The body of \<open>results.forEach\<close> in the officer branch.\<close>

definition appointedCompanyNode :: "externals \<Rightarrow> appointment \<Rightarrow> company option \<Rightarrow> node" where
  "appointedCompanyNode X item company =
     new_node (appointed_company.company_number (appointed_to item))
       ((no_data ''company''
           (case company of Some c \<Rightarrow> Company c | None \<Rightarrow> AppointedTo (appointed_to item)))
         \<lparr> node_data.label := appointed_company.company_name (appointed_to item),
           role := orElse (case company of Some c \<Rightarrow> company.type c | None \<Rightarrow> None)
                     (Some ''Limited Company''),
           subtext :=
             Some (case company of
                     Some c \<Rightarrow> ''Inc: '' @ formatDate X (date_of_creation c)
                   | None \<Rightarrow> ''Appointed: '' @ formatDate X (appointment.appointed_on item)),
           status := orElse (case company of Some c \<Rightarrow> company.company_status c | None \<Rightarrow> None)
                       (appointment.company_status item),
           address :=
             (case company of
                Some c \<Rightarrow> formatAddress (registered_office_address c)
              | None \<Rightarrow> map_option shortAddress (appointment.address item)) \<rparr>)"

fun appointmentStep :: "externals \<Rightarrow> node \<Rightarrow> node list \<Rightarrow> edge list \<Rightarrow> appointment_result
    \<Rightarrow> expansion \<Rightarrow> expansion" where
  "appointmentStep X nodeToExpand currentNodes currentEdges (Existing item existingNode)
       (newNodes, newEdges, allNeighbors) =
     (let nodeId = appointed_company.company_number (appointed_to item);
          edgeId = edgeId (node_id nodeToExpand) nodeId
      in (newNodes,
          (if \<not> has_edge_id edgeId currentEdges \<and> \<not> has_edge_id edgeId newEdges
           then newEdges @ [relationEdge edgeId (node_id nodeToExpand) nodeId
                              (appointment.officer_role item)]
           else newEdges),
          allNeighbors @ [existingNode]))"
| "appointmentStep X nodeToExpand currentNodes currentEdges (Fetched item company)
       (newNodes, newEdges, allNeighbors) =
     (let nodeId = appointed_company.company_number (appointed_to item)
      in if has_id nodeId newNodes then (newNodes, newEdges, allNeighbors)
         else
           (let addressEdge =
                  (case appointment.address item of
                     None \<Rightarrow> None
                   | Some itemAddress \<Rightarrow>
                       (case find (is_address_labelled (shortAddress itemAddress)) currentNodes of
                          None \<Rightarrow> None
                        | Some existingAddressNode \<Rightarrow>
                            Some (relationEdge (edgeId nodeId (node_id existingAddressNode))
                                    nodeId (node_id existingAddressNode)
                                    (Some ''Registered Office''))));
                newNode = appointedCompanyNode X item company
            in (newNodes @ [newNode],
                newEdges
                  @ [relationEdge (edgeId (node_id nodeToExpand) nodeId)
                       (node_id nodeToExpand) nodeId (appointment.officer_role item)]
                  @ (case addressEdge of None \<Rightarrow> [] | Some e \<Rightarrow> [e]),
                allNeighbors @ [newNode])))"

text \<open>The body of \<open>data.officers.forEach\<close> in the company branch.\<close>

definition expansionOfficerId :: "node \<Rightarrow> officer \<Rightarrow> nat \<Rightarrow> string" where
  "expansionOfficerId nodeToExpand officer index =
     (if truthy (officer.officer_id officer)
      then ''officer-'' @ the (officer.officer_id officer)
      else ''officer-'' @ node_id nodeToExpand @ ''-'' @ string_of_nat index)"

fun companyOfficerStep :: "node \<Rightarrow> node list \<Rightarrow> edge list \<Rightarrow> nat \<times> officer
    \<Rightarrow> expansion \<Rightarrow> expansion" where
  "companyOfficerStep nodeToExpand currentNodes currentEdges (index, officer)
       (newNodes, newEdges, allNeighbors) =
     (let officerId = expansionOfficerId nodeToExpand officer index
      in case find (\<lambda>n. node_id n = officerId) currentNodes of
           Some existingNode \<Rightarrow>
             (let edgeId = edgeId (node_id nodeToExpand) officerId
              in (newNodes,
                  (if \<not> has_edge_id edgeId currentEdges \<and> \<not> has_edge_id edgeId newEdges
                   then newEdges @ [relationEdge edgeId (node_id nodeToExpand) officerId
                                      (officer.officer_role officer)]
                   else newEdges),
                  allNeighbors @ [existingNode]))
         | None \<Rightarrow>
             if has_id officerId newNodes then (newNodes, newEdges, allNeighbors)
             else
               (let newNode = officerNode officerId officer;
                    newNodes1 = newNodes @ [newNode];
                    allNeighbors1 = allNeighbors @ [newNode];
                    newEdges1 =
                      newEdges @ [relationEdge (edgeId (node_id nodeToExpand) officerId)
                                    (node_id nodeToExpand) officerId
                                    (officer.officer_role officer)]
                in case officer.address officer of
                     None \<Rightarrow> (newNodes1, newEdges1, allNeighbors1)
                   | Some addr \<Rightarrow>
                       (case formatAddress (Some addr) of
                          None \<Rightarrow> (newNodes1, newEdges1, allNeighbors1)
                        | Some addressLabel \<Rightarrow>
                            if addressLabel = [] then (newNodes1, newEdges1, allNeighbors1)
                            else
                              (case find (is_address_labelled addressLabel) currentNodes of
                                 Some existingAddress \<Rightarrow>
                                   (newNodes1,
                                    newEdges1
                                      @ [correspondenceEdge officerId (node_id existingAddress)],
                                    allNeighbors1)
                               | None \<Rightarrow>
                                   (case find (is_address_labelled addressLabel) newNodes1 of
                                      Some newAddress \<Rightarrow>
                                        (newNodes1,
                                         newEdges1
                                           @ [correspondenceEdge officerId (node_id newAddress)],
                                         allNeighbors1)
                                    | None \<Rightarrow>
                                        (let addressNodeId =
                                               ''address-'' @ address_slug addressLabel @ ''-''
                                                 @ string_of_nat index;
                                             newAddressNode =
                                               officerAddressNode addressNodeId addressLabel officer
                                         in (newNodes1 @ [newAddressNode],
                                             newEdges1
                                               @ [correspondenceEdge officerId addressNodeId],
                                             allNeighbors1 @ [newAddressNode])))))))"

text \<open>The body of \<open>data.items.forEach\<close> in the address branch.\<close>

definition locatedCompanyNode :: "externals \<Rightarrow> node \<Rightarrow> company \<Rightarrow> node" where
  "locatedCompanyNode X nodeToExpand company =
     new_node (company.company_number company)
       ((no_data ''company'' (Company company))
         \<lparr> node_data.label := company.company_name company,
           role := orElse (company.company_status company) (Some ''Company''),
           subtext := Some (''Inc: '' @ formatDate X (date_of_creation company)),
           status := company.company_status company,
           address := node_data.label (data nodeToExpand) \<rparr>)"

fun locatedCompanyStep :: "externals \<Rightarrow> node \<Rightarrow> node list \<Rightarrow> company
    \<Rightarrow> expansion \<Rightarrow> expansion" where
  "locatedCompanyStep X nodeToExpand currentNodes company (newNodes, newEdges, allNeighbors) =
     (let nodeId = company.company_number company
      in case find (\<lambda>n. node_id n = nodeId) currentNodes of
           Some existingNode \<Rightarrow> (newNodes, newEdges, allNeighbors @ [existingNode])
         | None \<Rightarrow>
             if has_id nodeId newNodes then (newNodes, newEdges, allNeighbors)
             else
               (let newNode = locatedCompanyNode X nodeToExpand company
                in (newNodes @ [newNode],
                    newEdges @ [relationEdge (edgeId (node_id nodeToExpand) nodeId)
                                  (node_id nodeToExpand) nodeId (Some ''Registered At'')],
                    allNeighbors @ [newNode])))"

text \<open>
  \<open>expandSingleNode\<close>. Only the first fetch of each branch is outside a \<open>try\<close>: when it
  throws, the call throws. The per-company detail fetches of the officer branch are
  caught inside \<open>appointmentPromise\<close>.
\<close>

definition expandSingleNode :: "externals \<Rightarrow> registry \<Rightarrow> node \<Rightarrow> node list \<Rightarrow> edge list
    \<Rightarrow> failure + expansion" where
  "expandSingleNode X reg nodeToExpand currentNodes currentEdges =
     (if node_data.type (data nodeToExpand) = ''officer''
         \<and> truthy (node_data.officer_id (data nodeToExpand))
      then
        (case getAppointments reg (the (node_data.officer_id (data nodeToExpand))) of
           Threw err \<Rightarrow> Inl (Failure err)
         | Returned None \<Rightarrow> Inr ([], [], [])
         | Returned (Some items) \<Rightarrow>
             Inr (fold (appointmentStep X nodeToExpand currentNodes currentEdges)
                    (map (appointmentPromise reg currentNodes) items) ([], [], [])))
      else if node_data.type (data nodeToExpand) = ''company''
      then
        (case getCompany reg (node_id nodeToExpand) of
           Threw err \<Rightarrow> Inl (Failure err)
         | Returned body \<Rightarrow>
             (case resp_officers body of
                None \<Rightarrow> Inr ([], [], [])
              | Some officers \<Rightarrow>
                  Inr (fold (companyOfficerStep nodeToExpand currentNodes currentEdges)
                         (enumerate 0 officers) ([], [], []))))
      else if node_data.type (data nodeToExpand) = ''address''
      then
        (case searchAddress reg (node_data.label (data nodeToExpand)) of
           Threw err \<Rightarrow> Inl (Failure err)
         | Returned None \<Rightarrow> Inr ([], [], [])
         | Returned (Some items) \<Rightarrow>
             Inr (fold (locatedCompanyStep X nodeToExpand currentNodes) items ([], [], [])))
      else Inr ([], [], []))"

text \<open>\<open>Promise.all\<close>: the results in order, or the first rejection.\<close>

fun promise_all :: "(failure + 'a) list \<Rightarrow> failure + 'a list" where
  "promise_all [] = Inr []"
| "promise_all (Inl e # rs) = Inl e"
| "promise_all (Inr r # rs) = (case promise_all rs of Inl e \<Rightarrow> Inl e | Inr xs \<Rightarrow> Inr (r # xs))"

text \<open>\<open>deduplicateEdges\<close>: the first edge of each id, in order.\<close>

fun deduplicateEdges_from :: "string set \<Rightarrow> edge list \<Rightarrow> edge list" where
  "deduplicateEdges_from seen [] = []"
| "deduplicateEdges_from seen (edge # edges) =
     (if edge_id edge \<in> seen then deduplicateEdges_from seen edges
      else edge # deduplicateEdges_from (insert (edge_id edge) seen) edges)"

definition deduplicateEdges :: "edge list \<Rightarrow> edge list" where
  "deduplicateEdges edges = deduplicateEdges_from {} edges"

text \<open>
  The merge of one level: a new node enters \<open>nextLevelNodes\<close> unless its id is in the
  graph or already in \<open>nextLevelNodes\<close>; all new edges are appended.
\<close>

definition mergeNode :: "node list \<Rightarrow> node \<Rightarrow> node list \<Rightarrow> node list" where
  "mergeNode currentNodes node nextLevelNodes =
     (if \<not> has_id (node_id node) currentNodes \<and> \<not> has_id (node_id node) nextLevelNodes
      then nextLevelNodes @ [node] else nextLevelNodes)"

fun mergeResult :: "node list \<Rightarrow> expansion \<Rightarrow> node list \<times> edge list \<Rightarrow> node list \<times> edge list" where
  "mergeResult currentNodes (newNodes, newEdges, allNeighbors) (nextLevelNodes, currentEdges) =
     (fold (mergeNode currentNodes) newNodes nextLevelNodes, currentEdges @ newEdges)"

text \<open>The \<open>seenIds\<close> filter over \<open>potentialNextNodes\<close>.\<close>

fun uniqueNodes_from :: "string set \<Rightarrow> node list \<Rightarrow> node list" where
  "uniqueNodes_from seenIds [] = []"
| "uniqueNodes_from seenIds (n # ns) =
     (if node_id n \<in> seenIds then uniqueNodes_from seenIds ns
      else n # uniqueNodes_from (insert (node_id n) seenIds) ns)"

text \<open>
  One round of the \<open>for\<close> loop of \<open>handleExpandNetwork\<close>. \<open>regs k\<close> is the registry
  the \<open>k\<close>-th node of the frontier talks to; every node of the frontier is expanded
  against the same \<open>currentNodes\<close> and \<open>currentEdges\<close>.
\<close>

definition expansionPromises :: "externals \<Rightarrow> (nat \<Rightarrow> registry) \<Rightarrow> node list \<Rightarrow> edge list
    \<Rightarrow> node list \<Rightarrow> (failure + expansion) list" where
  "expansionPromises X regs currentNodes currentEdges nodesToExpand =
     map (\<lambda>(k, node). expandSingleNode X (regs k) node currentNodes currentEdges)
       (enumerate 0 nodesToExpand)"

text \<open>
  What follows \<open>Promise.all\<close> in the round: the new \<open>currentNodes\<close>, \<open>currentEdges\<close>
  and \<open>nodesToExpand\<close>.
\<close>

definition levelMerge :: "node list \<Rightarrow> edge list \<Rightarrow> expansion list
    \<Rightarrow> node list \<times> edge list \<times> node list" where
  "levelMerge currentNodes currentEdges expansionResults =
     (let (nextLevelNodes, currentEdges') =
            fold (mergeResult currentNodes) expansionResults ([], currentEdges);
          potentialNextNodes =
            concat (map (\<lambda>(newNodes, newEdges, allNeighbors). allNeighbors) expansionResults);
          uniqueNextNodes = uniqueNodes_from {} potentialNextNodes
      in (currentNodes @ nextLevelNodes, currentEdges', uniqueNextNodes))"

definition expandLevel :: "externals \<Rightarrow> (nat \<Rightarrow> registry) \<Rightarrow> node list \<Rightarrow> edge list \<Rightarrow> node list
    \<Rightarrow> failure + node list \<times> edge list \<times> node list" where
  "expandLevel X regs currentNodes currentEdges nodesToExpand =
     (case promise_all (expansionPromises X regs currentNodes currentEdges nodesToExpand) of
        Inl e \<Rightarrow> Inl e
      | Inr expansionResults \<Rightarrow> Inr (levelMerge currentNodes currentEdges expansionResults))"

text \<open>The loop \<open>for (let i = 0; i < expansionLevel; i++)\<close>, with \<open>remaining = expansionLevel - i\<close>.\<close>

fun expandLoop :: "externals \<Rightarrow> (nat \<Rightarrow> nat \<Rightarrow> registry) \<Rightarrow> nat \<Rightarrow> nat \<Rightarrow> node list \<Rightarrow> edge list
    \<Rightarrow> node list \<Rightarrow> failure + node list \<times> edge list" where
  "expandLoop X env i 0 currentNodes currentEdges nodesToExpand = Inr (currentNodes, currentEdges)"
| "expandLoop X env i (Suc remaining) currentNodes currentEdges nodesToExpand =
     (case expandLevel X (env i) currentNodes currentEdges nodesToExpand of
        Inl e \<Rightarrow> Inl e
      | Inr (currentNodes', currentEdges', nodesToExpand') \<Rightarrow>
          if nodesToExpand' = [] then Inr (currentNodes', currentEdges')
          else expandLoop X env (Suc i) remaining currentNodes' currentEdges' nodesToExpand')"

section \<open>The component state\<close>

text \<open>
  The React state the two handlers read and write, and the lines written with
  \<open>console.error\<close>.
\<close>

record state =
  s_nodes :: "node list"
  s_edges :: "edge list"
  s_selectedNode :: "node option"
  s_loading :: bool
  s_error :: "string option"
  s_isDialogOpen :: bool
  s_expansionLevel :: nat
  s_layoutDirection :: string
  s_console :: "string list"

text \<open>
  \<open>handleExpandNetwork\<close>. \<open>env i k\<close> is the registry seen by the \<open>k\<close>-th frontier node of
  level \<open>i\<close>. The \<open>catch\<close> block only writes to the console.
\<close>

definition handleExpandNetwork :: "externals \<Rightarrow> (nat \<Rightarrow> nat \<Rightarrow> registry) \<Rightarrow> state \<Rightarrow> state" where
  "handleExpandNetwork X env st =
     (case s_selectedNode st of
        None \<Rightarrow> st
      | Some selectedNode \<Rightarrow>
          (let st1 = st\<lparr> s_loading := True, s_isDialogOpen := False \<rparr>;
               st2 =
                 (case expandLoop X env 0 (s_expansionLevel st) (s_nodes st) (s_edges st)
                         [selectedNode] of
                    Inr (currentNodes, currentEdges) \<Rightarrow>
                      (let (layoutedNodes, layoutedEdges) =
                             getLayoutedElements X currentNodes (deduplicateEdges currentEdges)
                               (s_layoutDirection st)
                       in st1\<lparr> s_nodes := layoutedNodes, s_edges := layoutedEdges \<rparr>)
                  | Inl e \<Rightarrow> st1\<lparr> s_console := s_console st1 @ [''Failed to expand''] \<rparr>)
           in st2\<lparr> s_loading := False \<rparr>))"

text \<open>
  \<open>fetchData\<close> from the parsed body of \<open>/api/company/<number>\<close> on: the body is an error
  body (with a non-empty message), or holds the company, its officers and its PSCs.
  \<open>seed\<close> is what resolving the query and fetching that body gave. The layout writes the
  position into the node objects it is given, so the selected \<open>companyNode\<close> is the first
  of the layouted nodes.
\<close>

datatype seed_body = ErrorBody string | DataBody company "officer list" "psc list option"

definition fetchData :: "externals \<Rightarrow> seed_body fetched \<Rightarrow> state \<Rightarrow> state" where
  "fetchData X seed st =
     (let st1 = st\<lparr> s_loading := True, s_error := None \<rparr>;
          failed = (\<lambda>msg. st1\<lparr> s_error := Some (if msg = [] then ''Failed to load data'' else msg),
                              s_console := s_console st1 @ [''Failed to fetch graph data''] \<rparr>);
          st2 =
            (case seed of
               Threw msg \<Rightarrow> failed msg
             | Returned (ErrorBody msg) \<Rightarrow> failed msg
             | Returned (DataBody company officers pscs) \<Rightarrow>
                 (case assemble X company officers pscs of
                    Inl (Failure msg) \<Rightarrow> failed msg
                  | Inr (newNodes, newEdges) \<Rightarrow>
                      (let (layoutedNodes, layoutedEdges) =
                             getLayoutedElements X newNodes newEdges (s_layoutDirection st)
                       in st1\<lparr> s_nodes := layoutedNodes, s_edges := layoutedEdges,
                                s_selectedNode := Some (hd layoutedNodes) \<rparr>)))
      in st2\<lparr> s_loading := False \<rparr>)"

section \<open>Example data\<close>

text \<open>
  A small registry and graph on which the theorems below are run: a company with a
  registered office, officers with or without a registry id and an address, an officer
  \<open>officer-abc\<close> appointed to the companies \<open>00000007\<close> and \<open>00000008\<close>.
\<close>

definition ex_externals :: externals where
  "ex_externals = \<lparr> toLocaleDateString = (\<lambda>s. s), dagre = (\<lambda>direction ids es i. (120, 40)) \<rparr>"

definition ex_address :: address where
  "ex_address =
     \<lparr> address_line_1 = Some ''1 High Street'', address_line_2 = None,
       locality = Some ''Leeds'', region = None, postal_code = Some ''LS1 1AA'', country = None \<rparr>"

definition ex_company :: "string \<Rightarrow> company" where
  "ex_company number =
     \<lparr> company.company_number = number, company.company_name = Some ''ACME LTD'',
       company.type = Some ''ltd'', date_of_creation = Some ''2001-02-03'',
       company.company_status = Some ''active'', registered_office_address = Some ex_address \<rparr>"

definition ex_officer :: "string option \<Rightarrow> address option \<Rightarrow> officer" where
  "ex_officer i a =
     \<lparr> officer.officer_id = i, officer.name = Some ''Jane Doe'',
       officer.officer_role = Some ''director'', officer.nationality = None,
       officer.appointed_on = None, officer.occupation = None,
       officer.country_of_residence = None, officer.address = a \<rparr>"

definition ex_registry :: registry where
  "ex_registry =
     \<lparr> getAppointments = (\<lambda>i. Returned None),
       getCompany = (\<lambda>i. Returned \<lparr> resp_company = None, resp_officers = None \<rparr>),
       searchAddress = (\<lambda>l. Returned None) \<rparr>"

definition ex_address_node :: node where
  "ex_address_node =
     new_node ''address-1''
       ((no_data ''address'' (Company (ex_company ''00000006'')))
         \<lparr> node_data.label := Some ''1 High Street, Leeds'' \<rparr>)"

definition ex_appointment :: "string \<Rightarrow> appointment" where
  "ex_appointment number =
     \<lparr> appointed_to = \<lparr> appointed_company.company_number = number,
                        appointed_company.company_name = Some ''ACME LTD'' \<rparr>,
       appointment.officer_role = Some ''director'', appointment.appointed_on = None,
       appointment.address = None, appointment.company_status = Some ''active'' \<rparr>"

definition ex_shared_registry :: registry where
  "ex_shared_registry =
     \<lparr> getAppointments =
         (\<lambda>i. if i = ''abc''
              then Returned (Some [ex_appointment ''00000007'', ex_appointment ''00000008''])
              else Returned None),
       getCompany =
         (\<lambda>i. if i = ''00000007''
              then Returned \<lparr> resp_company = Some (ex_company ''00000007''),
                     resp_officers = Some [ex_officer (Some ''abc'') None,
                                            ex_officer (Some ''x'') (Some ex_address)] \<rparr>
              else if i = ''00000008''
              then Returned \<lparr> resp_company = Some (ex_company ''00000008''),
                     resp_officers = Some [ex_officer (Some ''y'') (Some ex_address)] \<rparr>
              else Returned \<lparr> resp_company = None, resp_officers = None \<rparr>),
       searchAddress = (\<lambda>l. Returned None) \<rparr>"

definition ex_officer_state :: state where
  "ex_officer_state =
     \<lparr> s_nodes = [officerNode ''officer-abc'' (ex_officer (Some ''abc'') None)],
       s_edges = [],
       s_selectedNode = Some (officerNode ''officer-abc'' (ex_officer (Some ''abc'') None)),
       s_loading = False, s_error = None, s_isDialogOpen = True, s_expansionLevel = 2,
       s_layoutDirection = ''TB'', s_console = [] \<rparr>"

definition ex_failing_registry :: registry where
  "ex_failing_registry = ex_registry\<lparr> getAppointments := (\<lambda>i. Threw ''Failed to fetch'') \<rparr>"




definition ex_empty_state :: state where
  "ex_empty_state =
     \<lparr> s_nodes = [], s_edges = [], s_selectedNode = None, s_loading = True, s_error = None,
       s_isDialogOpen = False, s_expansionLevel = 1, s_layoutDirection = ''TB'', s_console = [] \<rparr>"

definition ex_seed_registry :: registry where
  "ex_seed_registry =
     ex_registry\<lparr> getCompany :=
       (\<lambda>i. Returned \<lparr> resp_company = Some (ex_company ''00000006''),
                       resp_officers = Some [ex_officer None None] \<rparr>) \<rparr>"

lemmas ex_defs = ex_officer_state_def ex_shared_registry_def ex_appointment_def ex_officer_def ex_company_def
  ex_address_def ex_externals_def
lemmas model_defs = handleExpandNetwork_def expandLevel_def expansionPromises_def levelMerge_def
  expandSingleNode_def appointmentPromise_def appointedCompanyNode_def officerNode_def
  officerAddressNode_def new_node_def no_data_def truthy_def orElse_def expansionOfficerId_def
  has_id_def has_edge_id_def is_address_labelled_def formatAddress_def edgeId_def relationEdge_def
  correspondenceEdge_def mergeNode_def deduplicateEdges_def getLayoutedElements_def
  address_slug_def is_space_def toLowerCase_char_def string_of_nat.simps digit_char_def
  formatDate_def no_style_def Let_def char_of_def bit_Suc_0_iff

lemmas seed_defs = fetchData_def assemble_def companyNode_def officerKey_def pscNode_def pscRole_def
  shortAddress_def uniqueEdgesStep_def pscEdge_def resolveOfficerAddress_def ex_empty_state_def
  ex_seed_registry_def ex_registry_def

section \<open>Decimal strings\<close>

definition digit_val :: "char \<Rightarrow> nat" where
  "digit_val c = of_char c - 48"

definition nat_of_string :: "string \<Rightarrow> nat" where
  "nat_of_string s = foldl (\<lambda>a c. 10 * a + digit_val c) 0 s"

lemma digit_cases: "d < 10 \<Longrightarrow> d \<in> {0, 1, 2, 3, 4, 5, 6, 7, 8, 9 :: nat}"
  by auto

lemma digit_val_digit_char: "d < 10 \<Longrightarrow> digit_val (digit_char d) = d"
  using digit_cases[of d] by (auto simp: digit_val_def digit_char_def)

lemma digit_char_not_dash: "d < 10 \<Longrightarrow> digit_char d \<noteq> CHR ''-''"
  using digit_cases[of d] by (auto simp: digit_char_def)

lemma nat_of_string_of_nat: "nat_of_string (string_of_nat n) = n"
proof (induction n rule: string_of_nat.induct)
  case (1 n)
  show ?case
  proof (cases "n < 10")
    case True
    then show ?thesis
      by (subst string_of_nat.simps) (simp add: nat_of_string_def digit_val_digit_char)
  next
    case False
    have "nat_of_string (string_of_nat n)
        = 10 * nat_of_string (string_of_nat (n div 10)) + digit_val (digit_char (n mod 10))"
      using False by (subst string_of_nat.simps) (simp add: nat_of_string_def)
    also have "\<dots> = 10 * (n div 10) + n mod 10"
      using 1[OF False] by (simp add: digit_val_digit_char)
    finally show ?thesis by simp
  qed
qed

lemma string_of_nat_inj: "string_of_nat m = string_of_nat n \<Longrightarrow> m = n"
  by (metis nat_of_string_of_nat)

lemma string_of_nat_no_dash: "CHR ''-'' \<notin> set (string_of_nat n)"
proof (induction n rule: string_of_nat.induct)
  case (1 n)
  show ?case
  proof (cases "n < 10")
    case True
    then show ?thesis
      using digit_char_not_dash[of n] by (subst string_of_nat.simps) auto
  next
    case False
    then show ?thesis
      using 1[OF False] digit_char_not_dash[of "n mod 10"]
      by (subst string_of_nat.simps) auto
  qed
qed

lemma string_of_nat_nonempty: "string_of_nat n \<noteq> []"
  by (subst string_of_nat.simps) simp

lemma split_at_dash:
  assumes "CHR ''-'' \<notin> set a" "CHR ''-'' \<notin> set b" "a @ CHR ''-'' # x = b @ CHR ''-'' # y"
  shows "a = b"
  using assms
proof (induction a arbitrary: b)
  case Nil
  then show ?case by (cases b) auto
next
  case (Cons c a)
  then show ?case by (cases b) auto
qed

lemma address_index_id_inj:
  "''address-'' @ string_of_nat i @ ''-'' @ x = ''address-'' @ string_of_nat j @ ''-'' @ y \<Longrightarrow> i = j"
proof -
  assume "''address-'' @ string_of_nat i @ ''-'' @ x = ''address-'' @ string_of_nat j @ ''-'' @ y"
  then have "string_of_nat i @ CHR ''-'' # x = string_of_nat j @ CHR ''-'' # y" by simp
  then have "string_of_nat i = string_of_nat j"
    using split_at_dash string_of_nat_no_dash by blast
  then show ?thesis by (rule string_of_nat_inj)
qed

lemma address_index_id_not_primary:
  "''address-'' @ string_of_nat i @ ''-'' @ x \<noteq> ''address-1''"
proof
  assume "''address-'' @ string_of_nat i @ ''-'' @ x = ''address-1''"
  then have e: "string_of_nat i @ CHR ''-'' # x = ''1''" by simp
  then have "length (string_of_nat i @ CHR ''-'' # x) = 1" by simp
  then show False using string_of_nat_nonempty[of i] by (cases "string_of_nat i") auto
qed

section \<open>Identities of the seed graph\<close>


lemma officerNode_id [simp]: "node_id (officerNode i officer) = i"
  by (simp add: officerNode_def new_node_def)

lemma pscNode_id [simp]: "node_id (pscNode i psc) = i"
  by (simp add: pscNode_def new_node_def)

lemma officerAddressNode_id [simp]: "node_id (officerAddressNode i l officer) = i"
  by (simp add: officerAddressNode_def new_node_def)

lemma officerAddressNode_label [simp]:
  "node_data.label (data (officerAddressNode i l officer)) = Some l"
  by (simp add: officerAddressNode_def new_node_def no_data_def)

lemma companyNode_id [simp]: "node_id (companyNode X company) = company.company_number company"
  by (simp add: companyNode_def new_node_def)



text \<open>Address nodes of the seed batch: the id carries the index of the officer that created it.\<close>

definition indexed_below :: "nat \<Rightarrow> node list \<Rightarrow> bool" where
  "indexed_below k ns =
     (\<forall>n \<in> set ns. \<exists>i x. i < k \<and> node_id n = ''address-'' @ string_of_nat i @ ''-'' @ x)"

lemma indexed_below_mono: "indexed_below k ns \<Longrightarrow> k \<le> k' \<Longrightarrow> indexed_below k' ns"
  unfolding indexed_below_def by (meson less_le_trans)

lemma resolveOfficerAddress_inv:
  assumes "resolveOfficerAddress company ns index officer l = (i, ns')"
    and "distinct (map node_id ns)" and "indexed_below index ns"
  shows "distinct (map node_id ns') \<and> indexed_below (Suc index) ns'"
proof (cases "find (\<lambda>n. node_data.label (data n) = Some l) ns")
  case (Some foundNode)
  with assms(1) have "ns' = ns" by (simp add: resolveOfficerAddress_def)
  with assms(2,3) show ?thesis using indexed_below_mono[of index ns "Suc index"] by simp
next
  case None
  show ?thesis
  proof (cases "Some l = formatAddress (registered_office_address company)")
    case True
    with None assms(1) have "ns' = ns" by (simp add: resolveOfficerAddress_def)
    with assms(2,3) show ?thesis using indexed_below_mono[of index ns "Suc index"] by simp
  next
    case False
    let ?i = "''address-'' @ string_of_nat index @ ''-'' @ officerKey officer index"
    from None False assms(1) have ns': "ns' = ns @ [officerAddressNode ?i l officer]"
      by (auto simp: resolveOfficerAddress_def Let_def)
    have "?i \<notin> node_id ` set ns"
    proof
      assume "?i \<in> node_id ` set ns"
      then obtain n where n: "n \<in> set ns" "node_id n = ?i" by auto
      with assms(3) obtain j x where j: "j < index"
        "node_id n = ''address-'' @ string_of_nat j @ ''-'' @ x"
        unfolding indexed_below_def by blast
      with n have "''address-'' @ string_of_nat index @ ''-'' @ officerKey officer index
          = ''address-'' @ string_of_nat j @ ''-'' @ x" by simp
      from address_index_id_inj[OF this] j(1) show False by simp
    qed
    then have d: "distinct (map node_id ns')" using assms(2) ns' by simp
    have "indexed_below (Suc index) ns'"
      unfolding indexed_below_def ns'
    proof
      fix n assume "n \<in> set (ns @ [officerAddressNode ?i l officer])"
      then consider "n \<in> set ns" | "n = officerAddressNode ?i l officer" by auto
      then show "\<exists>i x. i < Suc index \<and> node_id n = ''address-'' @ string_of_nat i @ ''-'' @ x"
      proof cases
        case 1
        with assms(3) show ?thesis unfolding indexed_below_def by (meson less_Suc_eq)
      next
        case 2
        then have "node_id n = ''address-'' @ string_of_nat index @ ''-'' @ officerKey officer index"
          by simp
        then show ?thesis by blast
      qed
    qed
    with d show ?thesis by simp
  qed
qed

lemma officerAddressStep_inv:
  assumes "officerAddressStep company (index, officer) (ns, es) = (ns', es')"
    and "distinct (map node_id ns)" and "indexed_below index ns"
  shows "distinct (map node_id ns') \<and> indexed_below (Suc index) ns'"
proof -
  have keep: "ns' = ns \<Longrightarrow> ?thesis"
    using assms(2,3) indexed_below_mono[of index ns "Suc index"] by simp
  show ?thesis
  proof (cases "officer.address officer")
    case None
    with assms(1) show ?thesis using keep by simp
  next
    case (Some addr)
    obtain l where l: "formatAddress (Some addr) = Some l" by (simp add: formatAddress_def)
    show ?thesis
    proof (cases "l = []")
      case True
      with Some l assms(1) show ?thesis using keep by simp
    next
      case False
      obtain i ns1 where r: "resolveOfficerAddress company ns index officer l = (i, ns1)"
        by (cases "resolveOfficerAddress company ns index officer l")
      with Some l False assms(1) have "ns' = ns1" by (simp add: Let_def)
      with resolveOfficerAddress_inv[OF r assms(2,3)] show ?thesis by simp
    qed
  qed
qed

lemma officerAddress_fold:
  assumes "fold (officerAddressStep company) (enumerate k officers) (ns, es) = (ns', es')"
    and "distinct (map node_id ns)" and "indexed_below k ns"
  shows "distinct (map node_id ns') \<and> indexed_below (k + length officers) ns'"
  using assms
proof (induction officers arbitrary: k ns es)
  case Nil
  then show ?case by simp
next
  case (Cons officer officers)
  obtain ns1 es1 where s: "officerAddressStep company (k, officer) (ns, es) = (ns1, es1)"
    by (cases "officerAddressStep company (k, officer) (ns, es)")
  with Cons.prems(1) have f:
    "fold (officerAddressStep company) (enumerate (Suc k) officers) (ns1, es1) = (ns', es')"
    by simp
  from officerAddressStep_inv[OF s Cons.prems(2,3)]
  have "distinct (map node_id ns1)" "indexed_below (Suc k) ns1" by simp_all
  from Cons.IH[OF f this] show ?case by simp
qed





lemma indexed_below_not_primary: "indexed_below k ns \<Longrightarrow> n \<in> set ns \<Longrightarrow> node_id n \<noteq> ''address-1''"
  unfolding indexed_below_def using address_index_id_not_primary by metis


section \<open>Identities under expansion\<close>



















section \<open>The address key in the seed fetch\<close>

text \<open>The projection in the words of the specification.\<close>

definition spec_components :: "address \<Rightarrow> string list" where
  "spec_components a =
     map the (filter (\<lambda>c. c \<noteq> None \<and> c \<noteq> Some [])
       [address_line_1 a, address_line_2 a, locality a, region a, postal_code a, country a])"

fun spec_joined :: "string list \<Rightarrow> string" where
  "spec_joined [] = []"
| "spec_joined (c # cs) = c @ concat (map (\<lambda>d. '', '' @ d) cs)"

text \<open>
  The state of the address pass of the seed fetch before officer \<open>i\<close>, and the address
  node id officer \<open>i\<close> is linked to (for an officer with a non-empty formatted address).
\<close>

definition seedAddressNodes :: "company \<Rightarrow> officer list \<Rightarrow> nat \<Rightarrow> node list \<times> edge list" where
  "seedAddressNodes company officers i =
     fold (officerAddressStep company) (take i (enumerate 0 officers)) ([], [])"

definition seedAddressId :: "company \<Rightarrow> officer list \<Rightarrow> nat \<Rightarrow> string" where
  "seedAddressId company officers i =
     fst (resolveOfficerAddress company (fst (seedAddressNodes company officers i)) i
            (officers ! i) (the (formatAddress (officer.address (officers ! i)))))"

definition has_address_label :: "officer \<Rightarrow> bool" where
  "has_address_label officer =
     (case formatAddress (officer.address officer) of None \<Rightarrow> False | Some l \<Rightarrow> l \<noteq> [])"

lemma filterBoolean_spec:
  "filterBoolean cs = map the (filter (\<lambda>c. c \<noteq> None \<and> c \<noteq> Some []) cs)"
  by (induction cs rule: filterBoolean.induct) auto

lemma join_Cons: "join sep (c # cs) = c @ concat (map (\<lambda>d. sep @ d) cs)"
  by (induction cs arbitrary: c) simp_all

lemma join_spec: "join '', '' cs = spec_joined cs"
proof (cases cs)
  case Nil
  then show ?thesis by simp
next
  case (Cons c ds)
  have "(\<lambda>d. '', '' @ d) = (\<lambda>d. CHR '','' # CHR '' '' # d)" by (rule ext) simp
  then show ?thesis unfolding Cons join_Cons spec_joined.simps by simp
qed

lemma formatAddress_spec: "formatAddress (Some a) = Some (spec_joined (spec_components a))"
  by (simp add: formatAddress_def filterBoolean_spec join_spec spec_components_def)

text \<open>The invariant of the address pass.\<close>

definition labels_ok :: "company \<Rightarrow> node list \<Rightarrow> bool" where
  "labels_ok company ns =
     (distinct (map (\<lambda>n. node_data.label (data n)) ns)
      \<and> (\<forall>n \<in> set ns. node_data.label (data n) \<noteq> formatAddress (registered_office_address company)))"

lemma find_label_None:
  "find (\<lambda>n. node_data.label (data n) = Some l) ns = None
     \<longleftrightarrow> Some l \<notin> (\<lambda>n. node_data.label (data n)) ` set ns"
  unfolding find_None_iff by force

lemma resolve_spec:
  assumes "resolveOfficerAddress company ns index officer l = (i, ns')"
    and "labels_ok company ns"
  shows "labels_ok company ns' \<and> (\<exists>zs. ns' = ns @ zs)
       \<and> (if Some l = formatAddress (registered_office_address company) then i = ''address-1''
          else \<exists>n \<in> set ns'. node_data.label (data n) = Some l \<and> node_id n = i)"
proof (cases "find (\<lambda>n. node_data.label (data n) = Some l) ns")
  case (Some foundNode)
  then have f: "foundNode \<in> set ns" "node_data.label (data foundNode) = Some l"
    by (auto simp: find_Some_iff)
  with assms(2) have "Some l \<noteq> formatAddress (registered_office_address company)"
    unfolding labels_ok_def by metis
  moreover from Some assms(1) have "ns' = ns" "i = node_id foundNode"
    by (auto simp: resolveOfficerAddress_def)
  ultimately show ?thesis using assms(2) f by auto
next
  case None
  show ?thesis
  proof (cases "Some l = formatAddress (registered_office_address company)")
    case True
    with None assms(1) have "ns' = ns" "i = ''address-1''"
      by (auto simp: resolveOfficerAddress_def)
    with True assms(2) show ?thesis by simp
  next
    case False
    let ?i = "''address-'' @ string_of_nat index @ ''-'' @ officerKey officer index"
    from None False assms(1) have e: "ns' = ns @ [officerAddressNode ?i l officer]" "i = ?i"
      by (auto simp: resolveOfficerAddress_def Let_def)
    have "labels_ok company ns'"
      using assms(2) None False unfolding labels_ok_def e find_label_None by auto
    with e False show ?thesis by auto
  qed
qed

lemma step_spec:
  assumes "officerAddressStep company (index, officer) (ns, es) = (ns', es')"
    and "labels_ok company ns"
  shows "labels_ok company ns' \<and> (\<exists>zs. ns' = ns @ zs) \<and> (\<exists>zs. es' = es @ zs)"
proof (cases "has_address_label officer")
  case False
  with assms(1) have "ns' = ns" "es' = es"
    by (auto simp: has_address_label_def formatAddress_def split: option.splits)
  with assms(2) show ?thesis by simp
next
  case True
  then obtain addr l where l: "officer.address officer = Some addr"
    "formatAddress (Some addr) = Some l" "l \<noteq> []"
    by (auto simp: has_address_label_def formatAddress_def split: option.splits)
  obtain i ns1 where r: "resolveOfficerAddress company ns index officer l = (i, ns1)"
    by (cases "resolveOfficerAddress company ns index officer l")
  with l assms(1) have "ns' = ns1" "es' = es @ [correspondenceEdge (''officer-'' @ officerKey officer index) i]"
    by (auto simp: Let_def)
  with resolve_spec[OF r assms(2)] show ?thesis by auto
qed

lemma fold_step_spec:
  assumes "fold (officerAddressStep company) xs (ns, es) = (ns', es')"
    and "labels_ok company ns"
  shows "labels_ok company ns' \<and> (\<exists>zs. ns' = ns @ zs) \<and> (\<exists>zs. es' = es @ zs)"
  using assms
proof (induction xs arbitrary: ns es)
  case Nil
  then show ?case by simp
next
  case (Cons x xs)
  obtain index officer where x: "x = (index, officer)" by (cases x)
  obtain ns1 es1 where s: "officerAddressStep company (index, officer) (ns, es) = (ns1, es1)"
    by (cases "officerAddressStep company (index, officer) (ns, es)")
  with Cons.prems(1) x have f: "fold (officerAddressStep company) xs (ns1, es1) = (ns', es')" by simp
  from step_spec[OF s Cons.prems(2)] have 1: "labels_ok company ns1" "\<exists>zs. ns1 = ns @ zs" "\<exists>zs. es1 = es @ zs"
    by simp_all
  from Cons.IH[OF f 1(1)] 1(2,3) show ?case by auto
qed

lemma labels_ok_Nil: "labels_ok company []"
  by (simp add: labels_ok_def)

text \<open>What officer \<open>i\<close> leaves in the final lists.\<close>

lemma seed_officer_linked:
  assumes "i < length officers" and "has_address_label (officers ! i)"
    and "fold (officerAddressStep company) (enumerate 0 officers) ([], []) = (N, E)"
  shows "correspondenceEdge (''officer-'' @ officerKey (officers ! i) i)
             (seedAddressId company officers i) \<in> set E
       \<and> (if formatAddress (officer.address (officers ! i))
               = formatAddress (registered_office_address company)
          then seedAddressId company officers i = ''address-1''
          else \<exists>n \<in> set N. node_data.label (data n) = formatAddress (officer.address (officers ! i))
                 \<and> node_id n = seedAddressId company officers i)"
proof -
  let ?xs = "enumerate 0 officers"
  let ?o = "officers ! i"
  obtain Ni Ei where before: "seedAddressNodes company officers i = (Ni, Ei)"
    by (cases "seedAddressNodes company officers i")
  have okNi: "labels_ok company Ni"
    using fold_step_spec[OF before[unfolded seedAddressNodes_def] labels_ok_Nil] by simp
  from assms(2) obtain addr l where l: "officer.address ?o = Some addr"
    "formatAddress (Some addr) = Some l" "l \<noteq> []"
    by (auto simp: has_address_label_def formatAddress_def split: option.splits)
  obtain a N1 where r: "resolveOfficerAddress company Ni i ?o l = (a, N1)"
    by (cases "resolveOfficerAddress company Ni i ?o l")
  have sid: "seedAddressId company officers i = a"
    using r before l by (simp add: seedAddressId_def)
  have step: "officerAddressStep company (i, ?o) (Ni, Ei)
      = (N1, Ei @ [correspondenceEdge (''officer-'' @ officerKey ?o i) a])"
    using l r by (simp add: Let_def)
  have xs: "?xs = take i ?xs @ (i, ?o) # drop (Suc i) ?xs"
    using id_take_nth_drop[of i ?xs] assms(1) by (simp add: nth_enumerate_eq)
  have "fold (officerAddressStep company) ?xs ([], [])
      = fold (officerAddressStep company) (drop (Suc i) ?xs)
          (officerAddressStep company (i, ?o)
             (fold (officerAddressStep company) (take i ?xs) ([], [])))"
    by (subst xs) simp
  with assms(3) before step have rest:
    "fold (officerAddressStep company) (drop (Suc i) ?xs)
       (N1, Ei @ [correspondenceEdge (''officer-'' @ officerKey ?o i) a]) = (N, E)"
    by (simp add: seedAddressNodes_def)
  note rs = resolve_spec[OF r okNi]
  from rs have okN1: "labels_ok company N1" by simp
  from fold_step_spec[OF rest okN1] obtain zs ys where ext: "N = N1 @ zs"
    "E = (Ei @ [correspondenceEdge (''officer-'' @ officerKey ?o i) a]) @ ys" by auto
  have 1: "correspondenceEdge (''officer-'' @ officerKey ?o i) (seedAddressId company officers i) \<in> set E"
    unfolding sid ext by simp
  have 2: "if formatAddress (officer.address ?o) = formatAddress (registered_office_address company)
          then seedAddressId company officers i = ''address-1''
          else \<exists>n \<in> set N. node_data.label (data n) = formatAddress (officer.address ?o)
                 \<and> node_id n = seedAddressId company officers i"
    using rs l unfolding sid ext by (auto split: if_splits)
  from 1 2 show ?thesis by simp
qed

text \<open>
  C2, as the code has it. \<open>formatAddress\<close> is the projection of the specification: the
  six components in order, the empty and absent ones skipped, joined by a comma and a
  space. In the seed fetch it is the key of the officers' correspondence addresses: two
  officers with a non-empty formatted address are linked to the same address node
  exactly when their formatted strings are equal, an officer is linked to the
  registered-office node \<open>address-1\<close> exactly when its formatted string is the company's,
  and the link is a correspondence edge of the pass.
\<close>

theorem seed_address_key:
  assumes "i < length officers" and "j < length officers"
    and "has_address_label (officers ! i)" and "has_address_label (officers ! j)"
  shows "formatAddress (Some a) = Some (spec_joined (spec_components a))
       \<and> (seedAddressId company officers i = seedAddressId company officers j
            \<longleftrightarrow> formatAddress (officer.address (officers ! i))
                  = formatAddress (officer.address (officers ! j)))
       \<and> (seedAddressId company officers i = ''address-1''
            \<longleftrightarrow> formatAddress (officer.address (officers ! i))
                  = formatAddress (registered_office_address company))
       \<and> correspondenceEdge (''officer-'' @ officerKey (officers ! i) i)
            (seedAddressId company officers i)
           \<in> set (snd (fold (officerAddressStep company) (enumerate 0 officers) ([], [])))"
proof -
  obtain N E where f: "fold (officerAddressStep company) (enumerate 0 officers) ([], []) = (N, E)"
    by (cases "fold (officerAddressStep company) (enumerate 0 officers) ([], [])")
  let ?li = "formatAddress (officer.address (officers ! i))"
  let ?lj = "formatAddress (officer.address (officers ! j))"
  let ?cl = "formatAddress (registered_office_address company)"
  let ?ai = "seedAddressId company officers i" and ?aj = "seedAddressId company officers j"
  note I = seed_officer_linked[OF assms(1,3) f]
  note J = seed_officer_linked[OF assms(2,4) f]
  have ok: "labels_ok company N" using fold_step_spec[OF f labels_ok_Nil] by simp
  have ids: "distinct (map node_id N)" "indexed_below (0 + length officers) N"
    using officerAddress_fold[OF f] by (simp_all add: indexed_below_def)
  have np: "\<And>n. n \<in> set N \<Longrightarrow> node_id n \<noteq> ''address-1''"
    using indexed_below_not_primary[OF ids(2)] by blast
  have inj_label: "\<And>n m. n \<in> set N \<Longrightarrow> m \<in> set N \<Longrightarrow>
      node_data.label (data n) = node_data.label (data m) \<Longrightarrow> n = m"
    using ok unfolding labels_ok_def by (meson distinct_map inj_onD)
  have inj_id: "\<And>n m. n \<in> set N \<Longrightarrow> m \<in> set N \<Longrightarrow> node_id n = node_id m \<Longrightarrow> n = m"
    using ids(1) by (meson distinct_map inj_onD)
  have primary: "?ai = ''address-1'' \<longleftrightarrow> ?li = ?cl"
    using I np by (auto split: if_splits)
  have primary_j: "?aj = ''address-1'' \<longleftrightarrow> ?lj = ?cl"
    using J np by (auto split: if_splits)
  have same: "?ai = ?aj \<longleftrightarrow> ?li = ?lj"
  proof (cases "?li = ?cl")
    case True
    then show ?thesis using primary primary_j by metis
  next
    case False
    show ?thesis
    proof (cases "?lj = ?cl")
      case True
      then show ?thesis using False primary primary_j by metis
    next
      case lj: False
      from I False obtain n where n: "n \<in> set N" "node_data.label (data n) = ?li" "node_id n = ?ai"
        by auto
      from J lj obtain m where m: "m \<in> set N" "node_data.label (data m) = ?lj" "node_id m = ?aj"
        by auto
      show ?thesis
      proof
        assume "?ai = ?aj"
        with n m inj_id have "n = m" by metis
        with n m show "?li = ?lj" by simp
      next
        assume "?li = ?lj"
        with n m inj_label have "n = m" by metis
        with n m show "?ai = ?aj" by simp
      qed
    qed
  qed
  from I have edge: "correspondenceEdge (''officer-'' @ officerKey (officers ! i) i) ?ai \<in> set E"
    by simp
  show ?thesis using formatAddress_spec same primary edge f by simp
qed

definition ex_other_address :: address where
  "ex_other_address = ex_address\<lparr> postal_code := Some ''XX9 9XX'' \<rparr>"

definition ex_two_officers :: "officer list" where
  "ex_two_officers =
     [ex_officer (Some ''x'') (Some ex_other_address),
      ex_officer (Some ''y'') (Some ex_other_address)]"

theorem seed_address_key_witness:
  "formatAddress (Some ex_address) = Some (spec_joined (spec_components ex_address))
   \<and> (seedAddressId (ex_company ''00000006'') ex_two_officers 0
        = seedAddressId (ex_company ''00000006'') ex_two_officers 1
        \<longleftrightarrow> formatAddress (officer.address (ex_two_officers ! 0))
            = formatAddress (officer.address (ex_two_officers ! 1)))
   \<and> (seedAddressId (ex_company ''00000006'') ex_two_officers 0 = ''address-1''
        \<longleftrightarrow> formatAddress (officer.address (ex_two_officers ! 0))
            = formatAddress (registered_office_address (ex_company ''00000006'')))
   \<and> correspondenceEdge (''officer-'' @ officerKey (ex_two_officers ! 0) 0)
        (seedAddressId (ex_company ''00000006'') ex_two_officers 0)
       \<in> set (snd (fold (officerAddressStep (ex_company ''00000006''))
                      (enumerate 0 ex_two_officers) ([], [])))"
proof -
  have 1: "0 < length ex_two_officers" "1 < length ex_two_officers"
    by (simp_all add: ex_two_officers_def)
  have 2: "has_address_label (ex_two_officers ! 0)" "has_address_label (ex_two_officers ! 1)"
    by (simp_all add: has_address_label_def ex_two_officers_def ex_officer_def formatAddress_def
        ex_other_address_def ex_address_def)
  show ?thesis
    using seed_address_key[OF 1 2, of ex_address "ex_company ''00000006''"] .
qed

text \<open>
  C2 as stated fails in officer expansion, which compares the two-component projection
  (line 1, locality) with the labels of the address nodes. The registered-office node
  of the seed graph carries that short label, so an appointment whose address agrees
  with the registered office in line 1 and locality only, and whose formatted string
  differs, is linked to \<open>address-1\<close>.
\<close>

theorem officer_expansion_short_projection:
  "formatAddress (Some ex_other_address)
     \<noteq> formatAddress (registered_office_address (ex_company ''00000006''))
   \<and> map_option node_id
        (find (is_address_labelled ''1 High Street, Leeds'')
           (s_nodes (fetchData ex_externals
              (Returned (DataBody (ex_company ''00000006'') [ex_officer (Some ''abc'') None] None))
              ex_empty_state)))
     = Some ''address-1''
   \<and> (case expandSingleNode ex_externals
             (ex_registry\<lparr> getAppointments :=
                (\<lambda>i. Returned (Some [(ex_appointment ''00000007'')
                        \<lparr> appointment.address := Some ex_other_address \<rparr>])) \<rparr>)
             (officerNode ''officer-abc'' (ex_officer (Some ''abc'') None))
             (s_nodes (fetchData ex_externals
                (Returned (DataBody (ex_company ''00000006'') [ex_officer (Some ''abc'') None] None))
                ex_empty_state))
             [] of
        Inl e \<Rightarrow> False
      | Inr (newNodes, newEdges, allNeighbors) \<Rightarrow>
          map (\<lambda>e. (source e, target e, label e)) newEdges
            = [(''officer-abc'', ''00000007'', Some ''director''),
               (''00000007'', ''address-1'', Some ''Registered Office'')])"
  by (simp add: ex_other_address_def seed_defs ex_defs model_defs)

definition ex_expanded_state :: state where
  "ex_expanded_state =
     ex_empty_state
       \<lparr> s_nodes :=
           [companyNode ex_externals (ex_company ''00000008''),
            officerAddressNode ''address-1-high-street,-leeds-0'' ''1 High Street, Leeds, LS1 1AA''
              (ex_officer (Some ''x'') (Some ex_address))],
         s_selectedNode := Some (companyNode ex_externals (ex_company ''00000008'')) \<rparr>"

text \<open>
  Company expansion keys a new address node by the first 20 characters of the slugged
  label and the officer's index. Officer \<open>y\<close> of company \<open>00000008\<close> has an address
  that differs from the one already in the graph in the postal code only: the new node
  gets the id of the existing one, the merge drops it, and the correspondence edge of
  \<open>y\<close> ends at the node of the other address.
\<close>

lemma company_expansion_slug_collision:
  "map (\<lambda>n. (node_id n, node_data.label (data n)))
     (s_nodes (handleExpandNetwork ex_externals
        (\<lambda>i k. ex_registry\<lparr> getCompany := (\<lambda>i. Returned
            \<lparr> resp_company = None,
              resp_officers = Some [ex_officer (Some ''y'') (Some ex_other_address)] \<rparr>) \<rparr>)
        ex_expanded_state))
   = [(''00000008'', Some ''ACME LTD''),
      (''address-1-high-street,-leeds-0'', Some ''1 High Street, Leeds, LS1 1AA''),
      (''officer-y'', Some ''Jane Doe'')]
   \<and> map (\<lambda>e. (source e, target e))
       (s_edges (handleExpandNetwork ex_externals
        (\<lambda>i k. ex_registry\<lparr> getCompany := (\<lambda>i. Returned
            \<lparr> resp_company = None,
              resp_officers = Some [ex_officer (Some ''y'') (Some ex_other_address)] \<rparr>) \<rparr>)
        ex_expanded_state))
   = [(''00000008'', ''officer-y''), (''officer-y'', ''address-1-high-street,-leeds-0'')]
   \<and> formatAddress (Some ex_other_address) = Some ''1 High Street, Leeds, XX9 9XX''"
  by (simp add: ex_expanded_state_def ex_other_address_def seed_defs ex_defs model_defs)

section \<open>Properties of expansion\<close>

lemma find_id_None: "find (\<lambda>n. node_id n = i) ns = None \<longleftrightarrow> \<not> has_id i ns"
  by (auto simp: find_None_iff has_id_def)

lemma located_fold:
  assumes "fold (locatedCompanyStep X nodeToExpand currentNodes) items (nn, ne, an) = (nn', ne', an')"
  shows "(\<forall>n \<in> set nn'. n \<in> set nn \<or> \<not> has_id (node_id n) currentNodes)
       \<and> (\<forall>e \<in> set ne'. e \<in> set ne \<or>
             (\<not> has_id (target e) currentNodes
              \<and> edge_id e = edgeId (node_id nodeToExpand) (target e)))"
  using assms
proof (induction items arbitrary: nn ne an)
  case Nil
  then show ?case by simp
next
  case (Cons c items)
  let ?i = "company.company_number c"
  show ?case
  proof (cases "find (\<lambda>n. node_id n = ?i) currentNodes")
    case (Some existingNode)
    with Cons.prems have "fold (locatedCompanyStep X nodeToExpand currentNodes) items
        (nn, ne, an @ [existingNode]) = (nn', ne', an')" by simp
    from Cons.IH[OF this] show ?thesis .
  next
    case None
    then have nh: "\<not> has_id ?i currentNodes" by (simp add: find_id_None)
    show ?thesis
    proof (cases "has_id ?i nn")
      case True
      with None Cons.prems have "fold (locatedCompanyStep X nodeToExpand currentNodes) items
        (nn, ne, an) = (nn', ne', an')" by simp
      from Cons.IH[OF this] show ?thesis .
    next
      case False
      let ?n = "locatedCompanyNode X nodeToExpand c"
      let ?e = "relationEdge (edgeId (node_id nodeToExpand) ?i) (node_id nodeToExpand) ?i
                  (Some ''Registered At'')"
      from False None Cons.prems have "fold (locatedCompanyStep X nodeToExpand currentNodes) items
        (nn @ [?n], ne @ [?e], an @ [?n]) = (nn', ne', an')" by (simp add: Let_def)
      from Cons.IH[OF this]
      have ih: "(\<forall>n \<in> set nn'. n \<in> set (nn @ [?n]) \<or> \<not> has_id (node_id n) currentNodes)
       \<and> (\<forall>e \<in> set ne'. e \<in> set (ne @ [?e]) \<or>
             (\<not> has_id (target e) currentNodes
              \<and> edge_id e = edgeId (node_id nodeToExpand) (target e)))" .
      have "node_id ?n = ?i" by (simp add: locatedCompanyNode_def new_node_def)
      moreover have "target ?e = ?i" "edge_id ?e = edgeId (node_id nodeToExpand) ?i"
        by (simp_all add: relationEdge_def)
      ultimately show ?thesis using ih nh by auto
    qed
  qed
qed

lemma located_fold_neighbours:
  assumes "fold (locatedCompanyStep X nodeToExpand currentNodes) items (nn, ne, an) = (nn', ne', an')"
  shows "set an \<subseteq> set an'
       \<and> (\<forall>c \<in> set items. \<forall>n. find (\<lambda>n. node_id n = company.company_number c) currentNodes = Some n
             \<longrightarrow> n \<in> set an')"
  using assms
proof (induction items arbitrary: nn ne an)
  case Nil
  then show ?case by simp
next
  case (Cons c items)
  obtain nn1 ne1 an1 where s: "locatedCompanyStep X nodeToExpand currentNodes c (nn, ne, an) = (nn1, ne1, an1)"
    by (metis prod_cases3)
  with Cons.prems have "fold (locatedCompanyStep X nodeToExpand currentNodes) items (nn1, ne1, an1) = (nn', ne', an')"
    by simp
  note ih = Cons.IH[OF this]
  have a: "set an \<subseteq> set an1" using s by (auto simp: Let_def split: option.splits if_splits)
  have b: "\<And>n. find (\<lambda>n. node_id n = company.company_number c) currentNodes = Some n \<Longrightarrow> n \<in> set an1"
    using s by (auto simp: Let_def split: option.splits if_splits)
  from ih a b show ?case by auto
qed

lemma edgeId_inject: "edgeId a b = edgeId a c \<longleftrightarrow> b = c"
  by (simp add: edgeId_def)

text \<open>
  C10. Expanding an address node: for a company returned by the location search whose
  company number is already the id of a node of the graph, the expansion only records
  the existing node among the neighbours; it adds no node with that id, no edge that
  targets it, and in particular no registered-at edge from the address to it.
\<close>

theorem address_expansion_known_company:
  assumes "node_data.type (data nodeToExpand) = ''address''"
    and "searchAddress reg (node_data.label (data nodeToExpand)) = Returned (Some items)"
    and "company \<in> set items"
    and "has_id (company.company_number company) currentNodes"
  shows "\<exists>newNodes newEdges allNeighbors.
           expandSingleNode X reg nodeToExpand currentNodes currentEdges
             = Inr (newNodes, newEdges, allNeighbors)
         \<and> has_id (company.company_number company) allNeighbors
         \<and> \<not> has_id (company.company_number company) newNodes
         \<and> (\<forall>e \<in> set newEdges. target e \<noteq> company.company_number company)
         \<and> \<not> has_edge_id (edgeId (node_id nodeToExpand) (company.company_number company)) newEdges"
proof -
  obtain nn ne an where f:
    "fold (locatedCompanyStep X nodeToExpand currentNodes) items ([], [], []) = (nn, ne, an)"
    by (metis prod_cases3)
  have ex: "expandSingleNode X reg nodeToExpand currentNodes currentEdges = Inr (nn, ne, an)"
    using assms(1,2) f by (simp add: expandSingleNode_def)
  note lf = located_fold[OF f]
  have 1: "\<not> has_id (company.company_number company) nn"
    using lf assms(4) by (auto simp: has_id_def)
  have 2: "\<forall>e \<in> set ne. target e \<noteq> company.company_number company"
    using lf assms(4) by auto
  have 3: "\<not> has_edge_id (edgeId (node_id nodeToExpand) (company.company_number company)) ne"
  proof
    assume "has_edge_id (edgeId (node_id nodeToExpand) (company.company_number company)) ne"
    then obtain e where e: "e \<in> set ne"
      "edge_id e = edgeId (node_id nodeToExpand) (company.company_number company)"
      by (auto simp: has_edge_id_def)
    with lf have "edge_id e = edgeId (node_id nodeToExpand) (target e)" by auto
    with e have "target e = company.company_number company" by (simp add: edgeId_inject)
    with 2 e show False by blast
  qed
  have 0: "has_id (company.company_number company) an"
  proof -
    from assms(4) obtain n where n: "find (\<lambda>n. node_id n = company.company_number company) currentNodes = Some n"
      by (cases "find (\<lambda>n. node_id n = company.company_number company) currentNodes")
         (auto simp: find_id_None)
    then have "node_id n = company.company_number company" by (auto simp: find_Some_iff)
    moreover have "n \<in> set an" using located_fold_neighbours[OF f] assms(3) n by blast
    ultimately show ?thesis by (auto simp: has_id_def)
  qed
  from ex 0 1 2 3 show ?thesis by blast
qed

theorem address_expansion_known_company_witness:
  "\<exists>newNodes newEdges allNeighbors.
     expandSingleNode ex_externals
         (ex_registry\<lparr> searchAddress :=
            (\<lambda>l. Returned (Some [ex_company ''00000006'', ex_company ''00000007''])) \<rparr>)
         ex_address_node
         [companyNode ex_externals (ex_company ''00000006''), ex_address_node] []
       = Inr (newNodes, newEdges, allNeighbors)
     \<and> has_id ''00000006'' allNeighbors
     \<and> \<not> has_id ''00000006'' newNodes
     \<and> (\<forall>e \<in> set newEdges. target e \<noteq> ''00000006'')
     \<and> \<not> has_edge_id (edgeId ''address-1'' ''00000006'') newEdges"
  using address_expansion_known_company[of ex_address_node
      "ex_registry\<lparr> searchAddress :=
            (\<lambda>l. Returned (Some [ex_company ''00000006'', ex_company ''00000007''])) \<rparr>"
      "[ex_company ''00000006'', ex_company ''00000007'']"
      "ex_company ''00000006''"
      "[companyNode ex_externals (ex_company ''00000006''), ex_address_node]"
      ex_externals "[]"]
  by (simp add: ex_address_node_def ex_registry_def ex_company_def new_node_def no_data_def
      has_id_def companyNode_def)

text \<open>
  C5. The officer identity. Company expansion uses \<open>officer-<id>\<close> and falls back to
  \<open>officer-<parentId>-<index>\<close>; the seed fetch falls back to \<open>officer-<index>\<close>
  without the parent id. For the seed company \<open>00000006\<close> with one officer without a
  registry id the seed fetch names the officer \<open>officer-0\<close>, and expanding the seed
  company afterwards adds the same officer again as \<open>officer-00000006-0\<close>.
\<close>

theorem seed_fallback_officer_identity:
  "map node_id
     (s_nodes (fetchData ex_externals
        (Returned (DataBody (ex_company ''00000006'') [ex_officer None None] None)) ex_empty_state))
   = [''00000006'', ''officer-0'', ''address-1'']
   \<and> map node_id
     (s_nodes (handleExpandNetwork ex_externals (\<lambda>i k. ex_seed_registry)
        (fetchData ex_externals
           (Returned (DataBody (ex_company ''00000006'') [ex_officer None None] None)) ex_empty_state)))
   = [''00000006'', ''officer-0'', ''address-1'', ''officer-00000006-0'']"
  by (simp add: seed_defs ex_defs model_defs)

text \<open>
  C6. Two officers with the same formatted address found in one level through two
  different companies: officer \<open>x\<close> is the second officer of company \<open>00000007\<close> and
  officer \<open>y\<close> the first of company \<open>00000008\<close>. Each company is expanded against the
  graph as it was before the level, so each creates an address node, the two ids differ
  in the officer's index, and the merge keeps both: the graph has two address nodes with
  the same label and the two correspondence edges go to different nodes.
\<close>

theorem same_level_address_duplicated:
  "map (\<lambda>n. (node_id n, node_data.label (data n)))
     (filter (\<lambda>n. node_data.type (data n) = ''address'')
        (s_nodes (handleExpandNetwork ex_externals (\<lambda>i k. ex_shared_registry) ex_officer_state)))
   = [(''address-1-high-street,-leeds-1'', Some ''1 High Street, Leeds, LS1 1AA''),
      (''address-1-high-street,-leeds-0'', Some ''1 High Street, Leeds, LS1 1AA'')]
   \<and> map (\<lambda>e. (source e, target e))
        (filter (\<lambda>e. label e = Some ''Correspondence'')
           (s_edges (handleExpandNetwork ex_externals (\<lambda>i k. ex_shared_registry) ex_officer_state)))
   = [(''officer-x'', ''address-1-high-street,-leeds-1''),
      (''officer-y'', ''address-1-high-street,-leeds-0'')]"
  by (simp add: ex_defs model_defs numeral_2_eq_2)








text \<open>
  C8, as the code has it. When the expansion throws, the handler leaves the nodes, the
  edges and the error state as they were: it clears the loading flag, closes the dialog
  and writes one line to the console.
\<close>

theorem failed_expansion_keeps_graph:
  assumes "s_selectedNode st = Some selectedNode"
    and "expandLoop X env 0 (s_expansionLevel st) (s_nodes st) (s_edges st) [selectedNode] = Inl e"
  shows "handleExpandNetwork X env st =
           st\<lparr> s_loading := False, s_isDialogOpen := False,
               s_console := s_console st @ [''Failed to expand''] \<rparr>"
  using assms by (simp add: handleExpandNetwork_def)

theorem failed_expansion_keeps_graph_witness:
  "handleExpandNetwork ex_externals (\<lambda>i k. ex_failing_registry) ex_officer_state =
     ex_officer_state\<lparr> s_loading := False, s_isDialogOpen := False,
       s_console := s_console ex_officer_state @ [''Failed to expand''] \<rparr>"
proof -
  have "expandLoop ex_externals (\<lambda>i k. ex_failing_registry) 0 (s_expansionLevel ex_officer_state)
          (s_nodes ex_officer_state) (s_edges ex_officer_state)
          [officerNode ''officer-abc'' (ex_officer (Some ''abc'') None)] = Inl (Failure ''Failed to fetch'')"
    by (simp add: ex_failing_registry_def ex_registry_def ex_defs model_defs numeral_2_eq_2)
  moreover have "s_selectedNode ex_officer_state
      = Some (officerNode ''officer-abc'' (ex_officer (Some ''abc'') None))"
    by (simp add: ex_officer_state_def)
  ultimately show ?thesis by (rule failed_expansion_keeps_graph[rotated])
qed

text \<open>
  C8 as stated fails in its last part: the appointments request of the selected officer
  is rejected, the expansion throws, and the error state is still empty afterwards. The
  failure is only written to the console.
\<close>

theorem failed_expansion_not_surfaced:
  "expandLoop ex_externals (\<lambda>i k. ex_failing_registry) 0 (s_expansionLevel ex_officer_state)
          (s_nodes ex_officer_state) (s_edges ex_officer_state)
          [officerNode ''officer-abc'' (ex_officer (Some ''abc'') None)] = Inl (Failure ''Failed to fetch'')
   \<and> s_error (handleExpandNetwork ex_externals (\<lambda>i k. ex_failing_registry) ex_officer_state) = None"
  by (simp add: ex_failing_registry_def ex_registry_def ex_defs model_defs numeral_2_eq_2)

section \<open>Properties of the highlighter\<close>

text \<open>
  A node is open for traversal when it is the active node or not a company; \<open>joins\<close>
  reads an edge as undirected.
\<close>

definition unblocked :: "node list \<Rightarrow> string \<Rightarrow> string \<Rightarrow> bool" where
  "unblocked nodes activeNodeId v = (\<not> (is_company nodes v \<and> v \<noteq> activeNodeId))"

definition joins :: "edge \<Rightarrow> string \<Rightarrow> string \<Rightarrow> bool" where
  "joins e a b = ((source e = a \<and> target e = b) \<or> (source e = b \<and> target e = a))"

lemma neighbours_iff:
  "(n, i) \<in> set (adjacency_get (build_adjacency es) v) \<longleftrightarrow>
     (\<exists>e \<in> set es. i = edge_id e \<and> joins e v n)"
  by (auto simp: adjacency_get_build joins_def split: if_splits)

lemma fold_visit_nodes:
  "fst (snd (fold visit ns st)) = fst (snd st) \<union> fst ` set ns"
proof (induction ns arbitrary: st)
  case Nil show ?case by simp
next
  case (Cons a ns)
  obtain n i q cn ce where "a = (n, i)" "st = (q, cn, ce)" by (cases a; cases st) auto
  then show ?case using Cons by auto
qed

lemma fold_visit_edges:
  "snd (snd (fold visit ns st)) = snd (snd st) \<union> snd ` set ns"
proof (induction ns arbitrary: st)
  case Nil show ?case by simp
next
  case (Cons a ns)
  obtain n i q cn ce where "a = (n, i)" "st = (q, cn, ce)" by (cases a; cases st) auto
  then show ?case using Cons by auto
qed

lemma fold_visit_queue:
  "set (fst (fold visit ns st)) = set (fst st) \<union> (fst ` set ns - fst (snd st))"
proof (induction ns arbitrary: st)
  case Nil show ?case by simp
next
  case (Cons a ns)
  obtain n i q cn ce where "a = (n, i)" "st = (q, cn, ce)" by (cases a; cases st) auto
  then show ?case using Cons by auto
qed

lemma bfs_step_blocked:
  "is_company nodes currId \<and> currId \<noteq> a \<Longrightarrow>
     bfs nodes edges a (currId # queue, cn, ce) = bfs nodes edges a (queue, cn, ce)"
  by (simp add: bfs.simps)

lemma bfs_step_open:
  assumes "\<not> (is_company nodes currId \<and> currId \<noteq> a)"
    and "fold visit (adjacency_get (build_adjacency edges) currId) (queue, cn, ce) = st"
  shows "bfs nodes edges a (currId # queue, cn, ce) = bfs nodes edges a st"
  by (simp only: bfs.simps if_not_P[OF assms(1)] assms(2))

declare bfs.simps [simp del]

lemma bfs_mono:
  "cn \<subseteq> fst (bfs ns es a (q, cn, ce)) \<and> ce \<subseteq> snd (bfs ns es a (q, cn, ce))"
proof (induction ns es a "(q, cn, ce)" arbitrary: q cn ce rule: bfs.induct)
  case (1 nodes edges activeNodeId connectedNodeIds connectedEdgeIds)
  show ?case by (simp add: bfs.simps)
next
  case (2 nodes edges a currId queue cn ce)
  show ?case
  proof (cases "is_company nodes currId \<and> currId \<noteq> a")
    case True
    show ?thesis using 2(1)[OF True] by (simp only: bfs_step_blocked[OF True])
  next
    case False
    obtain q' cn' ce' where f:
      "fold visit (adjacency_get (build_adjacency edges) currId) (queue, cn, ce) = (q', cn', ce')"
      by (metis prod_cases3)
    have "cn \<subseteq> cn'" using fold_visit_nodes[of "adjacency_get (build_adjacency edges) currId" "(queue, cn, ce)"] f by auto
    moreover have "ce \<subseteq> ce'" using fold_visit_edges[of "adjacency_get (build_adjacency edges) currId" "(queue, cn, ce)"] f by auto
    moreover have "cn' \<subseteq> fst (bfs nodes edges a (q', cn', ce')) \<and> ce' \<subseteq> snd (bfs nodes edges a (q', cn', ce'))"
      using 2(2)[OF False f] .
    ultimately show ?thesis unfolding bfs_step_open[OF False f] by auto
  qed
qed


lemma fold_visit_eq:
  "fold visit ns (q, cn, ce) = (q', cn', ce') \<Longrightarrow>
     cn' = cn \<union> fst ` set ns \<and> ce' = ce \<union> snd ` set ns \<and> set q' = set q \<union> (fst ` set ns - cn)"
  using fold_visit_nodes[of ns "(q, cn, ce)"] fold_visit_edges[of ns "(q, cn, ce)"]
    fold_visit_queue[of ns "(q, cn, ce)"]
  by simp

definition closed_under :: "node list \<Rightarrow> edge list \<Rightarrow> string \<Rightarrow> string set \<Rightarrow> bool" where
  "closed_under nodes edges activeNodeId S =
     (\<forall>e \<in> set edges. \<forall>v \<in> S. unblocked nodes activeNodeId v \<longrightarrow>
        (source e = v \<longrightarrow> target e \<in> S) \<and> (target e = v \<longrightarrow> source e \<in> S))"

lemma closed_under_neighbours:
  assumes "closed_under ns es a S" "v \<in> S" "unblocked ns a v"
  shows "fst ` set (adjacency_get (build_adjacency es) v) \<subseteq> S"
proof
  fix n assume "n \<in> fst ` set (adjacency_get (build_adjacency es) v)"
  then obtain i where "(n, i) \<in> set (adjacency_get (build_adjacency es) v)" by auto
  then obtain e where "e \<in> set es" "joins e v n" by (auto simp: neighbours_iff)
  with assms show "n \<in> S" unfolding closed_under_def joins_def by blast
qed

lemma bfs_sound:
  assumes "closed_under ns es a S"
  shows "set q \<subseteq> S \<Longrightarrow> cn \<subseteq> S \<Longrightarrow> fst (bfs ns es a (q, cn, ce)) \<subseteq> S"
  using assms
proof (induction ns es a "(q, cn, ce)" arbitrary: q cn ce rule: bfs.induct)
  case (1 nodes edges activeNodeId connectedNodeIds connectedEdgeIds)
  then show ?case by (simp add: bfs.simps)
next
  case (2 nodes edges a currId queue cn ce)
  show ?case
  proof (cases "is_company nodes currId \<and> currId \<noteq> a")
    case True
    have "set queue \<subseteq> S" using 2(3) by simp
    with 2(1)[OF True] 2(4,5) show ?thesis by (simp only: bfs_step_blocked[OF True])
  next
    case False
    obtain q' cn' ce' where f:
      "fold visit (adjacency_get (build_adjacency edges) currId) (queue, cn, ce) = (q', cn', ce')"
      by (metis prod_cases3)
    note eq = fold_visit_eq[OF f]
    have "currId \<in> S" using 2(3) by simp
    moreover have "unblocked nodes a currId" using False by (simp add: unblocked_def)
    ultimately have nb: "fst ` set (adjacency_get (build_adjacency edges) currId) \<subseteq> S"
      using closed_under_neighbours[OF 2(5)] by blast
    have "set q' \<subseteq> S" using eq nb 2(3) by auto
    moreover have "cn' \<subseteq> S" using eq nb 2(4) by auto
    ultimately have "fst (bfs nodes edges a (q', cn', ce')) \<subseteq> S"
      using 2(2)[OF False f _ _ 2(5)] by blast
    then show ?thesis by (simp only: bfs_step_open[OF False f])
  qed
qed

lemma bfs_edges_sound:
  "set q \<subseteq> cn \<Longrightarrow>
   snd (bfs ns es a (q, cn, ce)) \<subseteq>
     ce \<union> {edge_id e | e v. e \<in> set es \<and> v \<in> fst (bfs ns es a (q, cn, ce))
                 \<and> unblocked ns a v \<and> (source e = v \<or> target e = v)}"
proof (induction ns es a "(q, cn, ce)" arbitrary: q cn ce rule: bfs.induct)
  case (1 nodes edges activeNodeId connectedNodeIds connectedEdgeIds)
  then show ?case by (simp add: bfs.simps)
next
  case (2 nodes edges a currId queue cn ce)
  show ?case
  proof (cases "is_company nodes currId \<and> currId \<noteq> a")
    case True
    have "set queue \<subseteq> cn" using 2(3) by simp
    with 2(1)[OF True] show ?thesis by (simp only: bfs_step_blocked[OF True])
  next
    case False
    obtain q' cn' ce' where f:
      "fold visit (adjacency_get (build_adjacency edges) currId) (queue, cn, ce) = (q', cn', ce')"
      by (metis prod_cases3)
    note eq = fold_visit_eq[OF f]
    let ?R = "fst (bfs nodes edges a (q', cn', ce'))"
    let ?T = "{edge_id e | e v. e \<in> set edges \<and> v \<in> ?R
                 \<and> unblocked nodes a v \<and> (source e = v \<or> target e = v)}"
    have q': "set q' \<subseteq> cn'" using eq 2(3) by auto
    have ih: "snd (bfs nodes edges a (q', cn', ce')) \<subseteq> ce' \<union> ?T"
      using 2(2)[OF False f q'] .
    have "currId \<in> cn" using 2(3) by simp
    then have "currId \<in> cn'" using eq by auto
    then have cur: "currId \<in> ?R" using bfs_mono[of cn' nodes edges a q' ce'] by auto
    have ub: "unblocked nodes a currId" using False by (simp add: unblocked_def)
    have "snd ` set (adjacency_get (build_adjacency edges) currId) \<subseteq> ?T"
    proof
      fix i assume "i \<in> snd ` set (adjacency_get (build_adjacency edges) currId)"
      then obtain n where "(n, i) \<in> set (adjacency_get (build_adjacency edges) currId)" by auto
      then obtain e where "e \<in> set edges" "i = edge_id e" "joins e currId n"
        by (auto simp: neighbours_iff)
      then show "i \<in> ?T" using cur ub unfolding joins_def by blast
    qed
    then have "ce' \<subseteq> ce \<union> ?T" using eq by auto
    with ih have "snd (bfs nodes edges a (q', cn', ce')) \<subseteq> ce \<union> ?T" by blast
    then show ?thesis by (simp only: bfs_step_open[OF False f])
  qed
qed

definition bfs_inv :: "node list \<Rightarrow> edge list \<Rightarrow> string \<Rightarrow> bfs_state \<Rightarrow> bool" where
  "bfs_inv ns es a st =
     (\<forall>v n i. v \<in> fst (snd st) \<longrightarrow> v \<notin> set (fst st) \<longrightarrow> unblocked ns a v \<longrightarrow>
        (n, i) \<in> set (adjacency_get (build_adjacency es) v) \<longrightarrow>
        n \<in> fst (snd st) \<and> i \<in> snd (snd st))"

lemma bfs_invD:
  "bfs_inv ns es a (q, cn, ce) \<Longrightarrow> v \<in> cn \<Longrightarrow> v \<notin> set q \<Longrightarrow> unblocked ns a v \<Longrightarrow>
     (n, i) \<in> set (adjacency_get (build_adjacency es) v) \<Longrightarrow> n \<in> cn \<and> i \<in> ce"
  unfolding bfs_inv_def by force

lemma bfs_invI:
  "(\<And>v n i. v \<in> cn \<Longrightarrow> v \<notin> set q \<Longrightarrow> unblocked ns a v \<Longrightarrow>
     (n, i) \<in> set (adjacency_get (build_adjacency es) v) \<Longrightarrow> n \<in> cn \<and> i \<in> ce)
   \<Longrightarrow> bfs_inv ns es a (q, cn, ce)"
  unfolding bfs_inv_def by simp

lemma bfs_closed:
  "bfs_inv ns es a (q, cn, ce) \<Longrightarrow> bfs ns es a (q, cn, ce) = (R, E) \<Longrightarrow>
     bfs_inv ns es a ([], R, E)"
proof (induction ns es a "(q, cn, ce)" arbitrary: q cn ce rule: bfs.induct)
  case (1 nodes edges activeNodeId connectedNodeIds connectedEdgeIds)
  then show ?case by (simp add: bfs.simps)
next
  case (2 nodes edges a currId queue cn ce)
  show ?case
  proof (cases "is_company nodes currId \<and> currId \<noteq> a")
    case True
    have "bfs_inv nodes edges a (queue, cn, ce)"
    proof (rule bfs_invI)
      fix v n i
      assume vv: "v \<in> cn" "v \<notin> set queue" and ub: "unblocked nodes a v"
        and ni: "(n, i) \<in> set (adjacency_get (build_adjacency edges) v)"
      have "v \<noteq> currId" using ub True unfolding unblocked_def by blast
      with vv have "v \<notin> set (currId # queue)" by simp
      then show "n \<in> cn \<and> i \<in> ce" using bfs_invD[OF 2(3) vv(1) _ ub ni] by blast
    qed
    moreover have "bfs nodes edges a (queue, cn, ce) = (R, E)"
      using 2(4) by (simp only: bfs_step_blocked[OF True])
    ultimately show ?thesis using 2(1)[OF True] by blast
  next
    case False
    obtain q' cn' ce' where f:
      "fold visit (adjacency_get (build_adjacency edges) currId) (queue, cn, ce) = (q', cn', ce')"
      by (metis prod_cases3)
    note eq = fold_visit_eq[OF f]
    have "bfs_inv nodes edges a (q', cn', ce')"
    proof (rule bfs_invI)
      fix v n i
      assume vv: "v \<in> cn'" "v \<notin> set q'" and ub: "unblocked nodes a v"
        and ni: "(n, i) \<in> set (adjacency_get (build_adjacency edges) v)"
      from vv eq have vcn: "v \<in> cn" "v \<notin> set queue" by auto
      show "n \<in> cn' \<and> i \<in> ce'"
      proof (cases "v = currId")
        case True
        have "n \<in> fst ` set (adjacency_get (build_adjacency edges) currId)"
          using ni True by (metis fst_conv image_eqI)
        moreover have "i \<in> snd ` set (adjacency_get (build_adjacency edges) currId)"
          using ni True by (metis snd_conv image_eqI)
        ultimately show ?thesis using eq by blast
      next
        case False
        with vcn have "v \<notin> set (currId # queue)" by simp
        then have "n \<in> cn \<and> i \<in> ce" using bfs_invD[OF 2(3) vcn(1) _ ub ni] by blast
        with eq show ?thesis by blast
      qed
    qed
    moreover have "bfs nodes edges a (q', cn', ce') = (R, E)"
      using 2(4) by (simp only: bfs_step_open[OF False f])
    ultimately show ?thesis using 2(2)[OF False f] by blast
  qed
qed

lemma recover_edges_eq:
  "recover_edges es cn ce = ce \<union> {edge_id e | e. e \<in> set es \<and> source e \<in> cn \<and> target e \<in> cn}"
  unfolding recover_edges_def
  by (induction es arbitrary: ce) auto

definition emphasized_nodes :: "node list \<times> edge list \<Rightarrow> string set" where
  "emphasized_nodes res = {node_id n | n. n \<in> set (fst res) \<and> opacity (node.style n) = Some 1}"

definition emphasized_edges :: "node list \<times> edge list \<Rightarrow> string set" where
  "emphasized_edges res = {edge_id e | e. e \<in> set (snd res) \<and> opacity (edge.style e) = Some 1}"

definition plain_node :: "string \<Rightarrow> string \<Rightarrow> node" where
  "plain_node i t =
     \<lparr> node_id = i,
       data = \<lparr> node_data.label = None, role = None, type = t, subtext = None, status = None,
                address = None, officer_id = None, appointed_on = None, nationality = None,
                occupation = None, country_of_residence = None,
                node_data.source = OfficerAddress None, customColor = None, node_notes = None \<rparr>,
       position = (0, 0), node.style = no_style \<rparr>"

definition plain_edge :: "string \<Rightarrow> string \<Rightarrow> edge" where
  "plain_edge s t =
     \<lparr> edge_id = ''e-'' @ s @ ''-'' @ t, source = s, target = t, label = None,
       style = no_style, labelBgStyle = ''#f8fafc'', labelStyle = (''#64748b'', 500) \<rparr>"

lemma styled_active:
  assumes "activeNodeId_of h s = Some a" "a \<noteq> []"
  shows "styled ns es h s =
           (map (style_node (fst (connected_ids ns es a))) ns,
            map (style_edge (snd (connected_ids ns es a))) es)"
  using assms by (simp add: styled_def split: prod.splits)

lemma style_node_simps:
  "node_id (style_node R n) = node_id n"
  "opacity (node.style (style_node R n)) = Some 1 \<longleftrightarrow> node_id n \<in> R"
  by (simp_all add: style_node_def)

lemma style_edge_simps:
  "edge_id (style_edge R e) = edge_id e"
  "opacity (edge.style (style_edge R e)) = Some 1 \<longleftrightarrow> edge_id e \<in> R"
  by (simp_all add: style_edge_def)

lemma emphasized_nodes_styled:
  assumes "activeNodeId_of h s = Some a" "a \<noteq> []"
  shows "emphasized_nodes (styled ns es h s) = node_id ` set ns \<inter> fst (connected_ids ns es a)"
  unfolding styled_active[OF assms] emphasized_nodes_def
  apply (auto simp: style_node_simps)
  subgoal for x
    by (rule exI[of _ "style_node (fst (connected_ids ns es a)) x"]) (simp add: style_node_simps)
  done

lemma emphasized_edges_styled:
  assumes "activeNodeId_of h s = Some a" "a \<noteq> []"
  shows "emphasized_edges (styled ns es h s) = edge_id ` set es \<inter> snd (connected_ids ns es a)"
  unfolding styled_active[OF assms] emphasized_edges_def
  apply (auto simp: style_edge_simps)
  subgoal for x
    by (rule exI[of _ "style_edge (snd (connected_ids ns es a)) x"]) (simp add: style_edge_simps)
  done

lemma connected_eq:
  "connected_ids ns es a =
     (fst (bfs ns es a ([a], {a}, {})),
      recover_edges es (fst (bfs ns es a ([a], {a}, {}))) (snd (bfs ns es a ([a], {a}, {}))))"
  by (simp add: connected_ids_def split: prod.splits)

lemma connected_active: "a \<in> fst (connected_ids ns es a)"
  using bfs_mono[of "{a}" ns es a "[a]" "{}"] by (simp add: connected_eq)

lemma connected_step:
  assumes "v \<in> fst (connected_ids ns es a)" "unblocked ns a v" "e \<in> set es" "joins e v n"
  shows "n \<in> fst (connected_ids ns es a) \<and> edge_id e \<in> snd (connected_ids ns es a)"
proof -
  obtain R E where b: "bfs ns es a ([a], {a}, {}) = (R, E)" by (cases "bfs ns es a ([a], {a}, {})")
  have "bfs_inv ns es a ([a], {a}, {})" by (rule bfs_invI) simp
  from bfs_closed[OF this b] have inv: "bfs_inv ns es a ([], R, E)" .
  have "(n, edge_id e) \<in> set (adjacency_get (build_adjacency es) v)"
    using assms(3,4) by (auto simp: neighbours_iff)
  moreover have "v \<in> R" using assms(1) b by (simp add: connected_eq)
  ultimately have "n \<in> R \<and> edge_id e \<in> E" using bfs_invD[OF inv _ _ assms(2)] by simp
  then show ?thesis using b by (simp add: connected_eq recover_edges_eq)
qed

lemma connected_both_ends:
  assumes "e \<in> set es" "source e \<in> fst (connected_ids ns es a)" "target e \<in> fst (connected_ids ns es a)"
  shows "edge_id e \<in> snd (connected_ids ns es a)"
  using assms by (auto simp: connected_eq recover_edges_eq)

lemma connected_sound:
  assumes "closed_under ns es a S" "a \<in> S"
  shows "fst (connected_ids ns es a) \<subseteq> S"
  using bfs_sound[OF assms(1), of "[a]" "{a}" "{}"] assms(2) by (simp add: connected_eq)

lemma connected_edges_sound:
  assumes "i \<in> snd (connected_ids ns es a)"
  shows "\<exists>e \<in> set es. i = edge_id e \<and>
           ((\<exists>v \<in> fst (connected_ids ns es a). unblocked ns a v \<and> (source e = v \<or> target e = v))
            \<or> (source e \<in> fst (connected_ids ns es a) \<and> target e \<in> fst (connected_ids ns es a)))"
proof -
  have "i \<in> snd (bfs ns es a ([a], {a}, {})) \<or>
        i \<in> {edge_id e | e. e \<in> set es \<and> source e \<in> fst (connected_ids ns es a) \<and> target e \<in> fst (connected_ids ns es a)}"
    using assms by (auto simp: connected_eq recover_edges_eq)
  then show ?thesis
  proof
    assume "i \<in> snd (bfs ns es a ([a], {a}, {}))"
    with bfs_edges_sound[of "[a]" "{a}" ns es a "{}"]
    obtain e v where "i = edge_id e" "e \<in> set es" "v \<in> fst (bfs ns es a ([a], {a}, {}))"
      "unblocked ns a v" "source e = v \<or> target e = v" by auto
    then show ?thesis unfolding connected_eq fst_conv by blast
  next
    assume "i \<in> {edge_id e | e. e \<in> set es \<and> source e \<in> fst (connected_ids ns es a) \<and> target e \<in> fst (connected_ids ns es a)}"
    then show ?thesis by blast
  qed
qed

text \<open>
  C9. With neither a hovered nor a selected node there is no active node, and the
  highlight computation returns the node list and the edge list as they are: no opacity
  or other emphasis styling is applied.
\<close>

theorem no_active_node_unchanged:
  "styled nodes edges None None = (nodes, edges)"
  by (simp add: styled_def activeNodeId_of_def)

text \<open>
  C3 (highlighter blocking). Company \<open>C\<close> is linked to officers \<open>O1\<close> and \<open>O2\<close>,
  and \<open>O1\<close> and \<open>O2\<close> share no address: the set \<open>S\<close> holds what lies on
  \<open>O1\<close>'s side (\<open>O1\<close>, \<open>C\<close>, and whatever \<open>O1\<close> reaches without passing through a
  company), and \<open>O2\<close> is not in it. Edge identities are unique. Then highlighting with
  active node \<open>O1\<close> emphasizes \<open>C\<close>, does not emphasize \<open>O2\<close>, and does not emphasize
  the edge between \<open>C\<close> and \<open>O2\<close>.
\<close>

theorem highlighter_blocking:
  assumes "activeNodeId_of hoveredNodeId selectedNode = Some O1" and "O1 \<noteq> []"
    and "is_company nodes C" and "C \<noteq> O1"
    and "e1 \<in> set edges" and "joins e1 O1 C"
    and "e2 \<in> set edges" and "joins e2 C O2"
    and "distinct (map edge_id edges)"
    and "O1 \<in> S" and "O2 \<notin> S" and "closed_under nodes edges O1 S"
  shows "C \<in> emphasized_nodes (styled nodes edges hoveredNodeId selectedNode)
       \<and> O2 \<notin> emphasized_nodes (styled nodes edges hoveredNodeId selectedNode)
       \<and> edge_id e2 \<notin> emphasized_edges (styled nodes edges hoveredNodeId selectedNode)"
proof -
  let ?R = "fst (connected_ids nodes edges O1)"
  have sub: "?R \<subseteq> S" using connected_sound[OF assms(12,10)] .
  have o2: "O2 \<notin> ?R" using sub assms(11) by blast
  have "unblocked nodes O1 O1" by (simp add: unblocked_def)
  from connected_step[OF connected_active this assms(5,6)] have c: "C \<in> ?R" by simp
  have "C \<in> node_id ` set nodes"
  proof -
    from assms(3) obtain n where "find (\<lambda>n. node_id n = C) nodes = Some n"
      by (auto simp: is_company_def split: option.splits)
    then show ?thesis by (auto simp: find_Some_iff)
  qed
  with c have 1: "C \<in> emphasized_nodes (styled nodes edges hoveredNodeId selectedNode)"
    by (simp add: emphasized_nodes_styled[OF assms(1,2)])
  have 2: "O2 \<notin> emphasized_nodes (styled nodes edges hoveredNodeId selectedNode)"
    using o2 by (simp add: emphasized_nodes_styled[OF assms(1,2)])
  have 3: "edge_id e2 \<notin> snd (connected_ids nodes edges O1)"
  proof
    assume "edge_id e2 \<in> snd (connected_ids nodes edges O1)"
    from connected_edges_sound[OF this] obtain e where e: "e \<in> set edges" "edge_id e2 = edge_id e"
      and d: "(\<exists>v \<in> ?R. unblocked nodes O1 v \<and> (source e = v \<or> target e = v))
            \<or> (source e \<in> ?R \<and> target e \<in> ?R)" by blast
    have "e = e2" using e assms(7,9) by (metis distinct_map inj_on_eq_iff)
    with d assms(8) o2 have "\<exists>v \<in> ?R. unblocked nodes O1 v \<and> (v = C \<or> v = O2)"
      unfolding joins_def by blast
    with o2 have "unblocked nodes O1 C" by blast
    with assms(3,4) show False by (simp add: unblocked_def)
  qed
  then have "edge_id e2 \<notin> emphasized_edges (styled nodes edges hoveredNodeId selectedNode)"
    by (simp add: emphasized_edges_styled[OF assms(1,2)])
  with 1 2 show ?thesis by blast
qed

definition blocking_nodes :: "node list" where
  "blocking_nodes =
     [plain_node ''00000006'' ''company'', plain_node ''officer-a'' ''officer'',
      plain_node ''officer-b'' ''officer'']"

definition blocking_edges :: "edge list" where
  "blocking_edges =
     [plain_edge ''00000006'' ''officer-a'', plain_edge ''00000006'' ''officer-b'']"

theorem highlighter_blocking_witness:
  "''00000006'' \<in> emphasized_nodes (styled blocking_nodes blocking_edges (Some ''officer-a'') None)
   \<and> ''officer-b'' \<notin> emphasized_nodes (styled blocking_nodes blocking_edges (Some ''officer-a'') None)
   \<and> edge_id (plain_edge ''00000006'' ''officer-b'')
        \<notin> emphasized_edges (styled blocking_nodes blocking_edges (Some ''officer-a'') None)"
proof -
  have 1: "activeNodeId_of (Some ''officer-a'') None = Some ''officer-a''"
    by (simp add: activeNodeId_of_def)
  have 2: "is_company blocking_nodes ''00000006''"
    by (simp add: is_company_def blocking_nodes_def plain_node_def)
  have 3: "plain_edge ''00000006'' ''officer-a'' \<in> set blocking_edges"
    "plain_edge ''00000006'' ''officer-b'' \<in> set blocking_edges"
    by (simp_all add: blocking_edges_def)
  have 4: "joins (plain_edge ''00000006'' ''officer-a'') ''officer-a'' ''00000006''"
    "joins (plain_edge ''00000006'' ''officer-b'') ''00000006'' ''officer-b''"
    by (simp_all add: joins_def plain_edge_def)
  have 5: "distinct (map edge_id blocking_edges)"
    by (simp add: blocking_edges_def plain_edge_def)
  have 6: "closed_under blocking_nodes blocking_edges ''officer-a'' {''officer-a'', ''00000006''}"
    by (simp add: closed_under_def unblocked_def is_company_def blocking_nodes_def
        blocking_edges_def plain_node_def plain_edge_def)
  show ?thesis
    using highlighter_blocking[OF 1 _ 2 _ 3(1) 4(1) 3(2) 4(2) 5 _ _ 6] by simp
qed

text \<open>
  C4 (highlighter address bridge). The graph contains edges \<open>O1\<close>--\<open>C\<close>,
  \<open>O2\<close>--\<open>C\<close>, \<open>O1\<close>--\<open>Addr\<close> and \<open>O2\<close>--\<open>Addr\<close>, where \<open>Addr\<close> is not a
  company. Highlighting with active node \<open>O1\<close> emphasizes \<open>O2\<close>, \<open>Addr\<close> and \<open>C\<close>
  and all four edges; the edge \<open>C\<close>--\<open>O2\<close> comes from the final pass over the edges
  whose two ends are both emphasized.
\<close>

theorem highlighter_address_bridge:
  assumes "activeNodeId_of hoveredNodeId selectedNode = Some O1" and "O1 \<noteq> []"
    and "{O2, Addr, C} \<subseteq> node_id ` set nodes"
    and "\<not> is_company nodes Addr"
    and "e1 \<in> set edges" and "joins e1 O1 C"
    and "e2 \<in> set edges" and "joins e2 O2 C"
    and "e3 \<in> set edges" and "joins e3 O1 Addr"
    and "e4 \<in> set edges" and "joins e4 O2 Addr"
  shows "{O2, Addr, C} \<subseteq> emphasized_nodes (styled nodes edges hoveredNodeId selectedNode)
       \<and> {edge_id e1, edge_id e2, edge_id e3, edge_id e4}
            \<subseteq> emphasized_edges (styled nodes edges hoveredNodeId selectedNode)"
proof -
  let ?R = "fst (connected_ids nodes edges O1)"
  let ?E = "snd (connected_ids nodes edges O1)"
  have u1: "unblocked nodes O1 O1" by (simp add: unblocked_def)
  have ua: "unblocked nodes O1 Addr" using assms(4) by (simp add: unblocked_def)
  from connected_step[OF connected_active u1 assms(5,6)] have c: "C \<in> ?R" "edge_id e1 \<in> ?E" by simp_all
  from connected_step[OF connected_active u1 assms(9,10)] have a: "Addr \<in> ?R" "edge_id e3 \<in> ?E" by simp_all
  have "joins e4 Addr O2" using assms(12) by (auto simp: joins_def)
  from connected_step[OF a(1) ua assms(11) this] have o: "O2 \<in> ?R" "edge_id e4 \<in> ?E" by simp_all
  have "edge_id e2 \<in> ?E" using connected_both_ends[OF assms(7)] assms(8) o(1) c(1)
    by (auto simp: joins_def)
  with c a o assms(3,5,7,9,11) show ?thesis
    by (simp add: emphasized_nodes_styled[OF assms(1,2)] emphasized_edges_styled[OF assms(1,2)])
qed

definition bridge_nodes :: "node list" where
  "bridge_nodes =
     [plain_node ''00000006'' ''company'', plain_node ''officer-a'' ''officer'',
      plain_node ''officer-b'' ''officer'', plain_node ''address-0-a'' ''address'']"

definition bridge_edges :: "edge list" where
  "bridge_edges =
     [plain_edge ''00000006'' ''officer-a'', plain_edge ''00000006'' ''officer-b'',
      plain_edge ''officer-a'' ''address-0-a'', plain_edge ''officer-b'' ''address-0-a'']"

theorem highlighter_address_bridge_witness:
  "{''officer-b'', ''address-0-a'', ''00000006''}
      \<subseteq> emphasized_nodes (styled bridge_nodes bridge_edges (Some ''officer-a'') None)
   \<and> {edge_id (plain_edge ''00000006'' ''officer-a''),
       edge_id (plain_edge ''00000006'' ''officer-b''),
       edge_id (plain_edge ''officer-a'' ''address-0-a''),
       edge_id (plain_edge ''officer-b'' ''address-0-a'')}
      \<subseteq> emphasized_edges (styled bridge_nodes bridge_edges (Some ''officer-a'') None)"
proof -
  have 1: "activeNodeId_of (Some ''officer-a'') None = Some ''officer-a''"
    by (simp add: activeNodeId_of_def)
  have 2: "{''officer-b'', ''address-0-a'', ''00000006''} \<subseteq> node_id ` set bridge_nodes"
    by (simp add: bridge_nodes_def plain_node_def)
  have 3: "\<not> is_company bridge_nodes ''address-0-a''"
    by (simp add: is_company_def bridge_nodes_def plain_node_def)
  have 4: "plain_edge ''00000006'' ''officer-a'' \<in> set bridge_edges"
    "plain_edge ''00000006'' ''officer-b'' \<in> set bridge_edges"
    "plain_edge ''officer-a'' ''address-0-a'' \<in> set bridge_edges"
    "plain_edge ''officer-b'' ''address-0-a'' \<in> set bridge_edges"
    by (simp_all add: bridge_edges_def)
  have 5: "joins (plain_edge ''00000006'' ''officer-a'') ''officer-a'' ''00000006''"
    "joins (plain_edge ''00000006'' ''officer-b'') ''officer-b'' ''00000006''"
    "joins (plain_edge ''officer-a'' ''address-0-a'') ''officer-a'' ''address-0-a''"
    "joins (plain_edge ''officer-b'' ''address-0-a'') ''officer-b'' ''address-0-a''"
    by (simp_all add: joins_def plain_edge_def)
  show ?thesis
    using highlighter_address_bridge[OF 1 _ 2 3 4(1) 5(1) 4(2) 5(2) 4(3) 5(3) 4(4) 5(4)]
    by simp
qed

end
